theory Spec2Isabelle
  imports Main "HOL-Library.Word"
begin

section \<open>Go library behaviour the two packages rely on\<close>

text \<open>
  Time is counted in nanoseconds. \<open>time.Duration\<close> is an int64 number of nanoseconds and
  \<open>Time.Sub\<close> saturates at the largest and smallest Duration instead of wrapping.
\<close>

type_synonym Time = int
type_synonym Duration = int

definition maxDuration :: Duration where
  "maxDuration = 2 ^ 63 - 1"

definition minDuration :: Duration where
  "minDuration = - (2 ^ 63)"

definition Second :: Duration where
  "Second = 1000000000"

definition Sub :: "Time \<Rightarrow> Time \<Rightarrow> Duration" where
  "Sub t u =
     (let d = t - u
      in if d > maxDuration then maxDuration
         else if d < minDuration then minDuration
         else d)"

text \<open>
  \<open>sync.Map.Range\<close> calls the callback once for every key of the map, in no fixed order.
  The order is the list \<open>ks\<close>; the callback threads its captured variables as the state
  \<open>s\<close>. Both callbacks of the housekeeper return \<open>true\<close>, so the iteration never stops
  early.
\<close>

fun sync_Range :: "('k \<rightharpoonup> 'v) \<Rightarrow> 'k list \<Rightarrow> ('k \<Rightarrow> 'v \<Rightarrow> 's \<Rightarrow> 's) \<Rightarrow> 's \<Rightarrow> 's" where
  "sync_Range m [] f s = s"
| "sync_Range m (k # ks) f s =
     (case m k of
        None \<Rightarrow> sync_Range m ks f s
      | Some v \<Rightarrow> sync_Range m ks f (f k v s))"

text \<open>
  \<open>bufio.Scanner\<close> with the default split function \<open>ScanLines\<close>: a token is the text up
  to the next line feed, without one trailing carriage return; a last line without a line
  feed is a token when it is not empty. The scanner's buffer holds at most
  \<open>MaxScanTokenSize\<close> bytes: at a longer line \<open>Scan\<close> returns false and the loop over the
  lines ends there.
\<close>

definition MaxScanTokenSize :: nat where
  "MaxScanTokenSize = 64 * 1024"

definition LF :: char where
  "LF = CHR 0x0A"

definition CR :: char where
  "CR = CHR 0x0D"

definition dropCR :: "string \<Rightarrow> string" where
  "dropCR s = (if s \<noteq> [] \<and> last s = CR then butlast s else s)"

fun scan_from :: "string \<Rightarrow> string \<Rightarrow> string list" where
  "scan_from cur [] =
     (if cur = [] \<or> MaxScanTokenSize \<le> length cur then [] else [dropCR cur])"
| "scan_from cur (c # cs) =
     (if c = LF
      then (if MaxScanTokenSize \<le> length cur then [] else dropCR cur # scan_from [] cs)
      else scan_from (cur @ [c]) cs)"

definition ScanLines :: "string \<Rightarrow> string list" where
  "ScanLines data = scan_from [] data"

text \<open>
  The file system as far as \<open>os.Stat\<close>, \<open>os.Open\<close> and \<open>os.Create\<close> see it: a path names
  nothing, a directory, or a file with its permissions and bytes. \<open>os.Open\<close> needs read
  permission; \<open>os.Create\<close> opens for reading and writing, truncates an existing file and
  creates a missing one.
\<close>

record os_file =
  readable :: bool
  writable :: bool
  bytes :: string

datatype fs_node = Dir | File os_file

type_synonym fs = "string \<rightharpoonup> fs_node"

datatype error =
    ConfigError string
  | StatError string
  | IsDirError string
  | OpenError string
  | CreateError string
  | JSONError string
  | WiseError string

definition os_Stat :: "fs \<Rightarrow> string \<Rightarrow> error + fs_node" where
  "os_Stat files path =
     (case files path of None \<Rightarrow> Inl (StatError path) | Some n \<Rightarrow> Inr n)"

fun IsDir :: "fs_node \<Rightarrow> bool" where
  "IsDir Dir = True"
| "IsDir (File f) = False"

definition os_Open :: "fs \<Rightarrow> string \<Rightarrow> error + string" where
  "os_Open files path =
     (case files path of
        Some (File f) \<Rightarrow> if readable f then Inr (bytes f) else Inl (OpenError path)
      | Some Dir \<Rightarrow> Inr []
      | None \<Rightarrow> Inl (OpenError path))"

definition os_Create :: "fs \<Rightarrow> string \<Rightarrow> error + fs" where
  "os_Create files path =
     (case files path of
        Some (File f) \<Rightarrow>
          if readable f \<and> writable f then Inr (files(path \<mapsto> File (f\<lparr>bytes := []\<rparr>)))
          else Inl (CreateError path)
      | Some Dir \<Rightarrow> Inl (CreateError path)
      | None \<Rightarrow> Inr (files(path \<mapsto> File \<lparr>readable = True, writable = True, bytes = []\<rparr>)))"

definition file_write :: "fs \<Rightarrow> string \<Rightarrow> string \<Rightarrow> fs" where
  "file_write files path out =
     (case files path of
        Some (File f) \<Rightarrow> files(path \<mapsto> File (f\<lparr>bytes := bytes f @ out\<rparr>))
      | _ \<Rightarrow> files)"

text \<open>
  Modelled from the spec: \<open>utils.FileNotExists\<close> is not among the sources; by its name and
  its use after a successful \<open>os.Stat\<close> it is true exactly when the path names nothing.
\<close>

definition FileNotExists :: "fs \<Rightarrow> string \<Rightarrow> bool" where
  "FileNotExists files path \<longleftrightarrow> files path = None"

section \<open>Package intel: the global asset cache\<close>

text \<open>
  \<open>net.IP\<close> is a byte slice; \<open>None\<close> is the nil slice.

  Modelled from the spec: \<open>meta.Asset\<close> and the cache's \<open>Asset\<close> are declared outside the
  sources. The records hold the fields of the spec's AssetRecord that the code of
  \<open>global.go\<close> and \<open>enrich.go\<close> reads and writes: the address and the host name, and for
  the cache's record the asset data, \<open>IsAsset\<close> and the time of the last update.
\<close>

type_synonym net_IP = "8 word list option"

record meta_Asset =
  Host :: string
  IP :: net_IP

record intel_Asset =
  Data :: meta_Asset
  IsAsset :: bool
  updated :: Time

text \<open>
  The \<open>sync.Map\<close> holds values of any type. The code stores an \<open>Asset\<close> by value when it
  loads the persistence file and a pointer to an \<open>Asset\<close> in \<open>GetIP\<close>, and every reader
  switches on the two; \<open>Foreign\<close> is a value of any other type.
\<close>

datatype cache_val = AssetV intel_Asset | AssetP intel_Asset | Foreign

type_synonym sync_Map = "string \<rightharpoonup> cache_val"

fun cache_asset :: "cache_val \<Rightarrow> intel_Asset option" where
  "cache_asset (AssetV a) = Some a"
| "cache_asset (AssetP a) = Some a"
| "cache_asset Foreign = None"

text \<open>
  The struct \<open>persist\<close> of \<open>global.go\<close>; its field \<open>assets\<close> carries a prefix, since the
  cache has a field of the same name. The struct \<open>prune\<close> is declared outside the sources:
  the record holds the three fields \<open>NewGlobalCache\<close> sets.
\<close>

record persist =
  dump :: Duration
  persist_assets :: string

record prune =
  enabled :: bool
  interval :: Duration
  period :: Duration

datatype wise_Config = WiseConfig string
datatype wise_Handle = WiseHandle string

text \<open>
  Modelled from the spec: \<open>utils.ErrChan\<close> is not among the sources. It is a bounded queue
  of errors; once it holds \<open>Max\<close> errors, further ones are dropped.
\<close>

record ErrChan =
  Max_errs :: nat
  items :: "error list"

definition Send :: "ErrChan \<Rightarrow> error \<Rightarrow> ErrChan" where
  "Send ch e = (if length (items ch) < Max_errs ch then ch\<lparr>items := items ch @ [e]\<rparr> else ch)"

text \<open>
  The cache. \<open>assets\<close> is a pointer to the map (\<open>None\<close> is nil, which \<open>GetIP\<close> tests).
  The map of network segments, which only \<open>updateAllNets\<close> reads, and the context, the
  cancel function and the wait group of the housekeeper are left out. \<open>Config\<close> is declared
  outside the sources: the record holds the three fields \<open>NewGlobalCache\<close> reads.
\<close>

record GlobalCache =
  assets :: "sync_Map option"
  persist :: persist
  prune :: prune
  wise :: "wise_Handle option"
  Errs :: ErrChan

record Config =
  Prune :: bool
  DumpJSONAssets :: string
  Wise :: "wise_Config option"

text \<open>
  What the package calls and the sources do not hold: \<open>Config.Validate\<close>,
  \<open>net.IP.String\<close>, \<open>json.Unmarshal\<close> into an \<open>Asset\<close>, \<open>Asset.JSON\<close>,
  \<open>wise.NewHandle\<close>, \<open>wise.GetAsset\<close> and the constant \<open>FieldPrefix\<close>. They are
  parameters of the model.
\<close>

record extern =
  Validate :: "Config \<Rightarrow> error option"
  IP_String :: "net_IP \<Rightarrow> string"
  Unmarshal :: "string \<Rightarrow> error + intel_Asset"
  JSON :: "intel_Asset \<Rightarrow> error + string"
  wise_NewHandle :: "wise_Config \<Rightarrow> wise_Handle option \<times> error option"
  wise_GetAsset :: "wise_Handle \<Rightarrow> net_IP \<Rightarrow> string list \<Rightarrow> meta_Asset \<times> bool \<times> error option"
  FieldPrefix :: string

definition zero_meta_Asset :: meta_Asset where
  "zero_meta_Asset = \<lparr>Host = [], IP = None\<rparr>"

subsection \<open>NewGlobalCache: construction and the load of the persistence file\<close>

text \<open>
  The loop over the scanner's lines: a line that does not decode ends the construction
  with its error; otherwise \<open>Update\<close> stamps the record with the clock's reading and the
  record is stored, by value, under its own IP's string.
\<close>

fun load_lines :: "extern \<Rightarrow> (nat \<Rightarrow> Time) \<Rightarrow> string list \<Rightarrow> nat \<Rightarrow> sync_Map \<Rightarrow> error + sync_Map" where
  "load_lines ext clock [] n m = Inr m"
| "load_lines ext clock (l # ls) n m =
     (case Unmarshal ext l of
        Inl e \<Rightarrow> Inl e
      | Inr obj \<Rightarrow>
          (let obj' = obj\<lparr>updated := clock n\<rparr>
           in load_lines ext clock ls (n + 1) (m(IP_String ext (IP (Data obj')) \<mapsto> AssetV obj'))))"

definition setup_persist :: "extern \<Rightarrow> fs \<Rightarrow> (nat \<Rightarrow> Time) \<Rightarrow> string \<Rightarrow> GlobalCache \<Rightarrow> error + GlobalCache" where
  "setup_persist ext files clock path gc =
     (case os_Stat files path of
        Inl err \<Rightarrow> Inl err
      | Inr node \<Rightarrow>
          if IsDir node then Inl (IsDirError path)
          else
            (let gc1 = gc\<lparr>persist := (persist gc)\<lparr>persist_assets := path\<rparr>\<rparr>
             in if \<not> FileNotExists files path
                then (case os_Open files path of
                        Inl err \<Rightarrow> Inl err
                      | Inr data \<Rightarrow>
                          (case load_lines ext clock (ScanLines data) 0 Map.empty of
                             Inl err \<Rightarrow> Inl err
                           | Inr m \<Rightarrow> Inr (gc1\<lparr>assets := Some m\<rparr>)))
                else Inr gc1))"

definition NewGlobalCache ::
    "extern \<Rightarrow> fs \<Rightarrow> (nat \<Rightarrow> Time) \<Rightarrow> Config \<Rightarrow> GlobalCache option \<times> error option" where
  "NewGlobalCache ext files clock c =
     (case Validate ext c of
        Some err \<Rightarrow> (None, Some err)
      | None \<Rightarrow>
          (let gc = \<lparr>assets = Some Map.empty,
                     persist = \<lparr>dump = 5 * Second, persist_assets = []\<rparr>,
                     prune = \<lparr>enabled = (if Prune c then True else False),
                              interval = 30 * Second, period = 120 * Second\<rparr>,
                     wise = None,
                     Errs = \<lparr>Max_errs = 100, items = []\<rparr>\<rparr>
           in case (if DumpJSONAssets c \<noteq> []
                    then setup_persist ext files clock (DumpJSONAssets c) gc
                    else Inr gc) of
                Inl err \<Rightarrow> (None, Some err)
              | Inr gc1 \<Rightarrow>
                  (case Wise c of
                     None \<Rightarrow> (Some gc1, None)
                   | Some wc \<Rightarrow>
                       (case wise_NewHandle ext wc of
                          (handle, err) \<Rightarrow> (Some (gc1\<lparr>wise := handle\<rparr>), err)))))"

subsection \<open>GetIP\<close>

text \<open>
  \<open>GetIP\<close> returns the pointer to the record (\<open>None\<close> is nil) and the flag, and the cache as
  it leaves it. \<open>now\<close> is the reading of \<open>time.Now()\<close> in the call. A stored value that is
  neither an \<open>Asset\<close> nor a pointer to one falls through the type switch to the miss path.
\<close>

definition GetIP ::
    "extern \<Rightarrow> Time \<Rightarrow> GlobalCache \<Rightarrow> net_IP \<Rightarrow> (intel_Asset option \<times> bool) \<times> GlobalCache" where
  "GetIP ext now g key =
     (case assets g of
        None \<Rightarrow> ((None, False), g)
      | Some m \<Rightarrow>
          (case Option.bind (m (IP_String ext key)) cache_asset of
             Some v \<Rightarrow> ((Some v, True), g)
           | None \<Rightarrow>
               (let asset = \<lparr>Data = zero_meta_Asset, IsAsset = False, updated = now\<rparr>
                in case wise g of
                     None \<Rightarrow> ((Some asset, False), g)
                   | Some h \<Rightarrow>
                       (case wise_GetAsset ext h key
                               [FieldPrefix ext @ ''.original'',
                                FieldPrefix ext @ ''.pretty'',
                                FieldPrefix ext @ ''.kernel''] of
                          (a, ok, err) \<Rightarrow>
                            (let errs = (case err of Some e \<Rightarrow> Send (Errs g) e | None \<Rightarrow> Errs g);
                                 asset1 = (if err = None \<and> ok
                                           then asset\<lparr>Data := a, IsAsset := True\<rparr>
                                           else asset)
                             in ((Some asset1, False),
                                 g\<lparr>assets := Some (m(IP_String ext key \<mapsto> AssetP asset1)),
                                   Errs := errs\<rparr>))))))"

subsection \<open>The housekeeper's prune branch\<close>

text \<open>
  The state of the \<open>Range\<close> callback: the map, from which it deletes, and the two counters
  it captures. \<open>now\<close> is read once, before the \<open>Range\<close>. \<open>tick_branch\<close> is the whole branch,
  with its test of \<open>prune.enabled\<close>.
\<close>

record prune_state =
  live :: sync_Map
  count :: nat
  total :: nat

definition prune_hit :: "Time \<Rightarrow> Duration \<Rightarrow> intel_Asset \<Rightarrow> bool" where
  "prune_hit now per a \<longleftrightarrow> Sub now (updated a) > per \<and> \<not> IsAsset a"

fun prune_visit :: "Time \<Rightarrow> Duration \<Rightarrow> string \<Rightarrow> cache_val \<Rightarrow> prune_state \<Rightarrow> prune_state" where
  "prune_visit now per k (AssetV a) s =
     (let s1 = (if prune_hit now per a
                then s\<lparr>live := (live s)(k := None), count := count s + 1\<rparr>
                else s)
      in s1\<lparr>total := total s1 + 1\<rparr>)"
| "prune_visit now per k (AssetP a) s =
     (let s1 = (if prune_hit now per a
                then s\<lparr>live := (live s)(k := None), count := count s + 1\<rparr>
                else s)
      in s1\<lparr>total := total s1 + 1\<rparr>)"
| "prune_visit now per k Foreign s = s\<lparr>total := total s + 1\<rparr>"

definition prune_pass :: "Time \<Rightarrow> Duration \<Rightarrow> string list \<Rightarrow> sync_Map \<Rightarrow> prune_state" where
  "prune_pass now per ks m =
     sync_Range m ks (prune_visit now per) \<lparr>live = m, count = 0, total = 0\<rparr>"

definition tick_branch :: "prune \<Rightarrow> Time \<Rightarrow> string list \<Rightarrow> sync_Map \<Rightarrow> sync_Map" where
  "tick_branch p now ks m =
     (if \<not> enabled p then m else live (prune_pass now (period p) ks m))"

subsection \<open>The housekeeper's dump branch\<close>

text \<open>
  The \<open>Range\<close> callback appends every record with \<open>IsAsset\<close> true to \<open>stuff\<close>, a copy of
  the value or of what the pointer points to.
\<close>

fun dump_visit :: "string \<Rightarrow> cache_val \<Rightarrow> intel_Asset list \<Rightarrow> intel_Asset list" where
  "dump_visit k (AssetV a) stuff = (if IsAsset a then stuff @ [a] else stuff)"
| "dump_visit k (AssetP a) stuff = (if IsAsset a then stuff @ [a] else stuff)"
| "dump_visit k Foreign stuff = stuff"

text \<open>
  The loop over \<open>stuff\<close>: an \<open>Asset\<close> whose \<open>JSON\<close> fails makes the code panic (\<open>None\<close>);
  otherwise its JSON and a line feed are written to the file.
\<close>

fun write_stuff :: "extern \<Rightarrow> intel_Asset list \<Rightarrow> string \<Rightarrow> fs \<Rightarrow> fs option" where
  "write_stuff ext [] path files = Some files"
| "write_stuff ext (a # as) path files =
     (case JSON ext a of
        Inl err \<Rightarrow> None
      | Inr j \<Rightarrow> write_stuff ext as path (file_write files path (j @ [LF])))"

text \<open>
  The branch returns the file system and the error channel as it leaves them, or \<open>None\<close>
  when it panics. The line it prints to standard output for every record is left out.
\<close>

definition dump_branch ::
    "extern \<Rightarrow> persist \<Rightarrow> string list \<Rightarrow> sync_Map \<Rightarrow> fs \<times> ErrChan \<Rightarrow> (fs \<times> ErrChan) option" where
  "dump_branch ext p ks m st =
     (case st of (files, errs) \<Rightarrow>
        if persist_assets p = [] then Some (files, errs)
        else
          (let stuff = sync_Range m ks dump_visit []
           in if length stuff = 0 then Some (files, errs)
              else (case os_Create files (persist_assets p) of
                      Inl err \<Rightarrow> Some (files, Send errs err)
                    | Inr files1 \<Rightarrow>
                        (case write_stuff ext stuff (persist_assets p) files1 of
                           None \<Rightarrow> None
                         | Some files2 \<Rightarrow> Some (files2, errs)))))"

subsection \<open>The housekeeper's loop and its timers\<close>

text \<open>
  Every iteration of the loop makes two new tickers and then selects among the
  cancellation signal and the two tickers' channels. A ticker made at \<open>t\<close> with interval
  \<open>d\<close> is first ready at \<open>t + d\<close>; the context's channel is ready from the instant of the
  cancellation on. \<open>select\<close> blocks until a case is ready and runs one of the cases ready
  at that instant: the goroutine is taken to wake up as soon as a case is ready.
\<close>

datatype signal = CtxDone | TickC | DumpC

fun ready_at :: "prune \<Rightarrow> persist \<Rightarrow> Time option \<Rightarrow> Time \<Rightarrow> signal \<Rightarrow> Time option" where
  "ready_at pr ps cancel t TickC = Some (t + interval pr)"
| "ready_at pr ps cancel t DumpC = Some (t + dump ps)"
| "ready_at pr ps cancel t CtxDone =
     (case cancel of None \<Rightarrow> None | Some c \<Rightarrow> Some (max c t))"

definition selects :: "prune \<Rightarrow> persist \<Rightarrow> Time option \<Rightarrow> Time \<Rightarrow> signal \<Rightarrow> Time \<Rightarrow> bool" where
  "selects pr ps cancel t sig w \<longleftrightarrow>
     ready_at pr ps cancel t sig = Some w
     \<and> w \<le> t + interval pr
     \<and> w \<le> t + dump ps
     \<and> (case cancel of None \<Rightarrow> True | Some c \<Rightarrow> w \<le> max c t)"

text \<open>
  A run of the housekeeper from an iteration that starts at \<open>t\<close>: the branches the loop
  takes, each with the instant at which \<open>select\<close> took it. The body of a branch takes some
  time, so the next iteration starts at any \<open>t'\<close> from that instant on. The empty list is a
  run that has taken no branch yet, so that the runs are closed under prefixes.
\<close>

inductive housekeeper ::
    "prune \<Rightarrow> persist \<Rightarrow> Time option \<Rightarrow> Time \<Rightarrow> (signal \<times> Time) list \<Rightarrow> bool"
  for pr :: prune and ps :: persist and cancel :: "Time option" where
  hk_running: "housekeeper pr ps cancel t []"
| hk_break: "selects pr ps cancel t CtxDone w \<Longrightarrow> housekeeper pr ps cancel t [(CtxDone, w)]"
| hk_tick: "selects pr ps cancel t TickC w \<Longrightarrow> w \<le> t' \<Longrightarrow> housekeeper pr ps cancel t' evs
     \<Longrightarrow> housekeeper pr ps cancel t ((TickC, w) # evs)"
| hk_dump: "selects pr ps cancel t DumpC w \<Longrightarrow> w \<le> t' \<Longrightarrow> housekeeper pr ps cancel t' evs
     \<Longrightarrow> housekeeper pr ps cancel t ((DumpC, w) # evs)"

subsection \<open>What the dump and the load need of the JSON encoding\<close>

text \<open>
  \<open>Asset.JSON\<close> and the decoding of an \<open>Asset\<close> are outside the sources. The round trip of
  a record through the persistence file rests on this much of them: the record encodes, to
  one line (no line feed, no carriage return at its end) that fits the scanner's buffer,
  and that line decodes to a record with the same \<open>IsAsset\<close> and the same IP.
\<close>

definition one_line_codec :: "extern \<Rightarrow> intel_Asset \<Rightarrow> bool" where
  "one_line_codec ext a =
     (case JSON ext a of
        Inl err \<Rightarrow> False
      | Inr j \<Rightarrow>
          LF \<notin> set j \<and> dropCR j = j \<and> length j < MaxScanTokenSize
          \<and> (case Unmarshal ext j of
                Inl err \<Rightarrow> False
              | Inr b \<Rightarrow> IsAsset b = IsAsset a \<and> IP (Data b) = IP (Data a)))"

section \<open>Package enrich: the enrichment handler\<close>

text \<open>
  Modelled from the spec: \<open>events.Atomic\<close>, the four structs \<open>Decode\<close> unmarshals into
  and the asset sub-object of an event are declared outside the sources. \<open>Decode\<close> names
  five values of \<open>events.Atomic\<close>, and \<open>OtherE\<close> is any other one. An event is the struct's
  type, its decoded fields and the asset sub-object that \<open>GetAsset\<close> points to (\<open>None\<close> when
  \<open>GetAsset\<close> returns nil); the sub-object holds the required \<open>Asset\<close> and the optional
  \<open>Source\<close> and \<open>Destination\<close>, pointers that may be nil.
\<close>

datatype Atomic = SuricataE | EventLogE | SysmonE | SyslogE | SnoopyE | OtherE nat

datatype event_struct = T_Suricata | T_DynamicWinlogbeat | T_Syslog | T_Snoopy

record AssetFull =
  Asset :: meta_Asset
  Source :: "meta_Asset option"
  Destination :: "meta_Asset option"

record 'o GameEvent =
  struct :: event_struct
  decoded :: 'o
  GetAsset :: "AssetFull option"

text \<open>
  The errors the handler returns: the two the package declares, and the error of the gob
  decoder, which \<open>NewHandler\<close> returns as it is.
\<close>

datatype 'o enrich_error =
    ErrMissingPersist
  | ErrMissingAssetData "'o GameEvent"
  | GobError string

text \<open>Go's \<open>uint\<close> on a 64-bit platform: the counters wrap around at \<open>2 ^ 64\<close>.\<close>

record countsParseErrs =
  Suricata :: "64 word"
  Windows :: "64 word"
  Syslog :: "64 word"
  Snoopy :: "64 word"

record Counts =
  Events :: "64 word"
  MissingMeta :: "64 word"
  AssetPickups :: "64 word"
  AssetUpdates :: "64 word"
  Assets :: int
  ParseErrs :: countsParseErrs

text \<open>
  The handler. \<open>'r\<close> is \<open>providentia.Record\<close> and \<open>'db\<close> the \<open>persist.Badger\<close> store, both
  declared outside the sources; the record's methods \<open>Keys\<close> and \<open>Asset\<close>, the store's
  \<open>Scan\<close> and \<open>Set\<close>, the gob decoder, \<open>json.Unmarshal\<close> and \<open>net.IP.String\<close> are
  parameters of the functions that call them. The fields \<open>assets\<close> and \<open>persist\<close> carry a
  suffix: the cache's record has fields of the same names. Both maps are made by
  \<open>NewHandler\<close>, the only place that builds a handler, so neither is nil.
\<close>

record ('r, 'db) Handler =
  Counts :: Counts
  missingLookupSet :: "string \<rightharpoonup> bool"
  assets_h :: "string \<rightharpoonup> 'r"
  persist_h :: 'db

record 'db enrich_Config =
  Persist :: "'db option"

definition badgerPrefix :: string where
  "badgerPrefix = ''assets''"

definition enrich_Validate :: "'db enrich_Config \<Rightarrow> 'o enrich_error option" where
  "enrich_Validate c = (if Persist c = None then Some ErrMissingPersist else None)"

subsection \<open>AddAsset\<close>

fun add_keys ::
    "('db \<Rightarrow> string \<Rightarrow> string \<Rightarrow> 'r \<Rightarrow> 'db) \<Rightarrow> 'r \<Rightarrow> string list \<Rightarrow> ('r, 'db) Handler
      \<Rightarrow> ('r, 'db) Handler" where
  "add_keys db_Set val [] h = h"
| "add_keys db_Set val (key # keys) h =
     (case assets_h h key of
        Some old \<Rightarrow> add_keys db_Set val keys h
      | None \<Rightarrow>
          add_keys db_Set val keys
            (h\<lparr>Counts := (Counts h)\<lparr>AssetUpdates := AssetUpdates (Counts h) + 1\<rparr>,
               persist_h := db_Set (persist_h h) badgerPrefix key val,
               assets_h := (assets_h h)(key \<mapsto> val)\<rparr>))"

definition AddAsset ::
    "('r \<Rightarrow> string list) \<Rightarrow> ('db \<Rightarrow> string \<Rightarrow> string \<Rightarrow> 'r \<Rightarrow> 'db) \<Rightarrow> ('r, 'db) Handler \<Rightarrow> 'r
      \<Rightarrow> ('r, 'db) Handler" where
  "AddAsset Keys db_Set h val =
     (let h1 = h\<lparr>Counts := (Counts h)\<lparr>AssetPickups := AssetPickups (Counts h) + 1\<rparr>\<rparr>;
          h2 = add_keys db_Set val (Keys val) h1
      in h2\<lparr>Counts := (Counts h2)\<lparr>Assets := int (card (dom (assets_h h2)))\<rparr>\<rparr>)"

subsection \<open>Decode\<close>

text \<open>
  \<open>json_Unmarshal s raw\<close> is \<open>json.Unmarshal\<close> of \<open>raw\<close> into a struct of type \<open>s\<close>: its
  error, or the decoded fields with the asset sub-object. \<open>Decode\<close> returns the event (Go's
  nil is \<open>None\<close>) and the error (nil is \<open>None\<close>), and the handler with its counters.
\<close>

definition decode_into ::
    "(event_struct \<Rightarrow> string \<Rightarrow> 'e + ('o \<times> AssetFull option)) \<Rightarrow> event_struct \<Rightarrow> string
      \<Rightarrow> 'e + 'o GameEvent" where
  "decode_into json_Unmarshal s raw =
     (case json_Unmarshal s raw of
        Inl err \<Rightarrow> Inl err
      | Inr (obj, a) \<Rightarrow> Inr \<lparr>struct = s, decoded = obj, GetAsset = a\<rparr>)"

definition bump_ParseErrs ::
    "(countsParseErrs \<Rightarrow> countsParseErrs) \<Rightarrow> ('r, 'db) Handler \<Rightarrow> ('r, 'db) Handler" where
  "bump_ParseErrs f h = h\<lparr>Counts := (Counts h)\<lparr>ParseErrs := f (ParseErrs (Counts h))\<rparr>\<rparr>"

definition Decode ::
    "(event_struct \<Rightarrow> string \<Rightarrow> 'e + ('o \<times> AssetFull option)) \<Rightarrow> ('r, 'db) Handler \<Rightarrow> string
      \<Rightarrow> Atomic \<Rightarrow> ('o GameEvent option \<times> 'e option) \<times> ('r, 'db) Handler" where
  "Decode json_Unmarshal h raw kind =
     (let h1 = h\<lparr>Counts := (Counts h)\<lparr>Events := Events (Counts h) + 1\<rparr>\<rparr>
      in case kind of
           SuricataE \<Rightarrow>
             (case decode_into json_Unmarshal T_Suricata raw of
                Inl err \<Rightarrow> ((None, Some err), bump_ParseErrs (Suricata_update (\<lambda>n. n + 1)) h1)
              | Inr obj \<Rightarrow> ((Some obj, None), h1))
         | EventLogE \<Rightarrow>
             (case decode_into json_Unmarshal T_DynamicWinlogbeat raw of
                Inl err \<Rightarrow> ((None, Some err), bump_ParseErrs (Windows_update (\<lambda>n. n + 1)) h1)
              | Inr obj \<Rightarrow> ((Some obj, None), h1))
         | SysmonE \<Rightarrow>
             (case decode_into json_Unmarshal T_DynamicWinlogbeat raw of
                Inl err \<Rightarrow> ((None, Some err), bump_ParseErrs (Windows_update (\<lambda>n. n + 1)) h1)
              | Inr obj \<Rightarrow> ((Some obj, None), h1))
         | SyslogE \<Rightarrow>
             (case decode_into json_Unmarshal T_Syslog raw of
                Inl err \<Rightarrow> ((None, Some err), bump_ParseErrs (Syslog_update (\<lambda>n. n + 1)) h1)
              | Inr obj \<Rightarrow> ((Some obj, None), h1))
         | SnoopyE \<Rightarrow>
             (case decode_into json_Unmarshal T_Snoopy raw of
                Inl err \<Rightarrow> ((None, Some err), bump_ParseErrs (Snoopy_update (\<lambda>n. n + 1)) h1)
              | Inr obj \<Rightarrow> ((Some obj, None), h1))
         | OtherE n \<Rightarrow> ((None, None), h1))"

subsection \<open>Enrich and the registry lookup\<close>

text \<open>
  \<open>assetLookup\<close> returns the asset it found (the code returns a pointer, and \<open>Enrich\<close>
  stores what it points to) and the handler, whose missing-lookup set the lookup may have
  written. \<open>rec_Asset\<close> is the record's method \<open>Asset\<close>, taken to return a pointer that is
  not nil.
\<close>

definition assetLookup ::
    "(net_IP \<Rightarrow> string) \<Rightarrow> ('r \<Rightarrow> meta_Asset) \<Rightarrow> ('r, 'db) Handler \<Rightarrow> meta_Asset
      \<Rightarrow> meta_Asset \<times> ('r, 'db) Handler" where
  "assetLookup ip_String rec_Asset h a =
     (case (if IP a \<noteq> None then assets_h h (ip_String (IP a)) else None) of
        Some val \<Rightarrow> (rec_Asset val, h)
      | None \<Rightarrow>
          if Host a \<noteq> []
          then (case assets_h h (Host a) of
                  Some val \<Rightarrow> (rec_Asset val, h)
                | None \<Rightarrow> (a, h\<lparr>missingLookupSet := (missingLookupSet h)(Host a \<mapsto> True)\<rparr>))
          else (a, h))"

text \<open>
  The lookup of an optional sub-object (\<open>Source\<close>, \<open>Destination\<close>): a nil pointer is left
  alone, any other is replaced by the result of the lookup of what it points to.
\<close>

definition lookup_ptr ::
    "(net_IP \<Rightarrow> string) \<Rightarrow> ('r \<Rightarrow> meta_Asset) \<Rightarrow> ('r, 'db) Handler \<Rightarrow> meta_Asset option
      \<Rightarrow> meta_Asset option \<times> ('r, 'db) Handler" where
  "lookup_ptr ip_String rec_Asset h p =
     (case p of
        None \<Rightarrow> (None, h)
      | Some a \<Rightarrow> (case assetLookup ip_String rec_Asset h a of (a', h') \<Rightarrow> (Some a', h')))"

text \<open>
  \<open>Enrich\<close> on the nil event panics at the call of \<open>GetAsset\<close> (\<open>None\<close>). Otherwise it
  returns its error and the event and the handler as it leaves them: the event is changed
  in place through the pointer that \<open>GetAsset\<close> returned.
\<close>

definition Enrich ::
    "(net_IP \<Rightarrow> string) \<Rightarrow> ('r \<Rightarrow> meta_Asset) \<Rightarrow> ('r, 'db) Handler \<Rightarrow> 'o GameEvent option
      \<Rightarrow> (('o enrich_error option \<times> 'o GameEvent) \<times> ('r, 'db) Handler) option" where
  "Enrich ip_String rec_Asset h event =
     (case event of
        None \<Rightarrow> None
      | Some ev \<Rightarrow>
          (case GetAsset ev of
             None \<Rightarrow> Some ((Some (ErrMissingAssetData ev), ev), h)
           | Some fullAsset \<Rightarrow>
               (case assetLookup ip_String rec_Asset h (Asset fullAsset) of
                  (a1, h1) \<Rightarrow>
                    (let fa1 = fullAsset\<lparr>Asset := a1\<rparr>
                     in case lookup_ptr ip_String rec_Asset h1 (Source fa1) of
                          (src, h2) \<Rightarrow>
                            (let fa2 = fa1\<lparr>Source := src\<rparr>
                             in case lookup_ptr ip_String rec_Asset h2 (Destination fa2) of
                                  (dst, h3) \<Rightarrow>
                                    (let fa3 = fa2\<lparr>Destination := dst\<rparr>
                                     in Some ((None, ev\<lparr>GetAsset := Some fa3\<rparr>), h3)))))))"

subsection \<open>NewHandler\<close>

fun store_keys :: "string list \<Rightarrow> 'r \<Rightarrow> (string \<rightharpoonup> 'r) \<Rightarrow> (string \<rightharpoonup> 'r)" where
  "store_keys [] obj m = m"
| "store_keys (key # keys) obj m = store_keys keys obj (m(key \<mapsto> obj))"

fun load_records ::
    "('r \<Rightarrow> string list) \<Rightarrow> (string \<Rightarrow> string + 'r) \<Rightarrow> string list \<Rightarrow> (string \<rightharpoonup> 'r)
      \<Rightarrow> string + (string \<rightharpoonup> 'r)" where
  "load_records Keys gob_Decode [] m = Inr m"
| "load_records Keys gob_Decode (d # ds) m =
     (case gob_Decode d of
        Inl err \<Rightarrow> Inl err
      | Inr obj \<Rightarrow> load_records Keys gob_Decode ds (store_keys (Keys obj) obj m))"

definition NewHandler ::
    "('r \<Rightarrow> string list) \<Rightarrow> ('db \<Rightarrow> string \<Rightarrow> string list) \<Rightarrow> (string \<Rightarrow> string + 'r)
      \<Rightarrow> 'db enrich_Config \<Rightarrow> 'o enrich_error + ('r, 'db) Handler" where
  "NewHandler Keys db_Scan gob_Decode c =
     (case enrich_Validate c of
        Some err \<Rightarrow> Inl err
      | None \<Rightarrow>
          (case Persist c of
             None \<Rightarrow> Inl ErrMissingPersist
           | Some db \<Rightarrow>
               (case load_records Keys gob_Decode (db_Scan db badgerPrefix) Map.empty of
                  Inl err \<Rightarrow> Inl (GobError err)
                | Inr m \<Rightarrow>
                    Inr \<lparr>Counts = \<lparr>Events = 0, MissingMeta = 0, AssetPickups = 0,
                                    AssetUpdates = 0, Assets = int (card (dom m)),
                                    ParseErrs = \<lparr>Suricata = 0, Windows = 0, Syslog = 0,
                                                 Snoopy = 0\<rparr>\<rparr>,
                         missingLookupSet = Map.empty,
                         assets_h = m,
                         persist_h = db\<rparr>)))"

section \<open>Concrete inputs\<close>

subsection \<open>Addresses\<close>

text \<open>
  \<open>net.IP.String\<close> on the nil address and on a four-byte address (dotted decimal). The
  inputs below have no address of another length; \<open>ipv4_String\<close> shows such an address as
  a question mark.
\<close>

definition digit_char :: "nat \<Rightarrow> char" where
  "digit_char n = ''0123456789'' ! n"

definition byte_decimal :: "8 word \<Rightarrow> string" where
  "byte_decimal b =
     (let n = unat b
      in if n < 10 then [digit_char n]
         else if n < 100 then [digit_char (n div 10), digit_char (n mod 10)]
         else [digit_char (n div 100), digit_char (n div 10 mod 10), digit_char (n mod 10)])"

fun ipv4_String :: "net_IP \<Rightarrow> string" where
  "ipv4_String None = ''<nil>''"
| "ipv4_String (Some []) = ''<nil>''"
| "ipv4_String (Some [a, b, c, d]) =
     byte_decimal a @ ''.'' @ byte_decimal b @ ''.'' @ byte_decimal c @ ''.'' @ byte_decimal d"
| "ipv4_String (Some other) = ''?''"

definition ip_10_0_0_1 :: net_IP where
  "ip_10_0_0_1 = Some [10, 0, 0, 1]"

definition ip_10_0_0_2 :: net_IP where
  "ip_10_0_0_2 = Some [10, 0, 0, 2]"

definition ip_10_0_0_3 :: net_IP where
  "ip_10_0_0_3 = Some [10, 0, 0, 3]"

subsection \<open>Records and caches\<close>

text \<open>
  A cache of three records, a stale negative one, a recent negative one and an old positive
  one; and a cache of two positive records.
\<close>

definition stale_negative :: intel_Asset where
  "stale_negative = \<lparr>Data = \<lparr>Host = [], IP = ip_10_0_0_1\<rparr>, IsAsset = False, updated = 0\<rparr>"

definition fresh_negative :: intel_Asset where
  "fresh_negative =
     \<lparr>Data = \<lparr>Host = [], IP = ip_10_0_0_2\<rparr>, IsAsset = False, updated = 100 * Second\<rparr>"

definition old_positive :: intel_Asset where
  "old_positive = \<lparr>Data = \<lparr>Host = ''web01'', IP = ip_10_0_0_3\<rparr>, IsAsset = True, updated = 0\<rparr>"

definition new_positive :: intel_Asset where
  "new_positive = \<lparr>Data = \<lparr>Host = ''db01'', IP = ip_10_0_0_1\<rparr>, IsAsset = True, updated = 50\<rparr>"

definition cache3 :: sync_Map where
  "cache3 = [''10.0.0.1'' \<mapsto> AssetP stale_negative,
             ''10.0.0.2'' \<mapsto> AssetP fresh_negative,
             ''10.0.0.3'' \<mapsto> AssetV old_positive]"

definition cache2 :: sync_Map where
  "cache2 = [''10.0.0.3'' \<mapsto> AssetV old_positive, ''10.0.0.1'' \<mapsto> AssetP new_positive]"

subsection \<open>An instance of the cache's parameters\<close>

text \<open>
  A validation that accepts every configuration; an encoding of a record in one line for
  \<open>Asset.JSON\<close>, with a decoder that knows the lines of the two positive records and
  rejects every other line; no directory service.
\<close>

definition accept_config :: "Config \<Rightarrow> error option" where
  "accept_config c = None"

definition line_JSON :: "intel_Asset \<Rightarrow> error + string" where
  "line_JSON a =
     Inr (''{IP:'' @ ipv4_String (IP (Data a)) @ '',Host:'' @ Host (Data a) @ '',IsAsset:''
          @ (if IsAsset a then ''true'' else ''false'') @ ''}'')"

definition line_Unmarshal :: "string \<Rightarrow> error + intel_Asset" where
  "line_Unmarshal l =
     (case find (\<lambda>a. line_JSON a = Inr l) [old_positive, new_positive] of
        Some a \<Rightarrow> Inr (a\<lparr>updated := 0\<rparr>)
      | None \<Rightarrow> Inl (JSONError l))"

definition no_NewHandle :: "wise_Config \<Rightarrow> wise_Handle option \<times> error option" where
  "no_NewHandle wc = (None, Some (WiseError ''no directory service''))"

definition no_GetAsset :: "wise_Handle \<Rightarrow> net_IP \<Rightarrow> string list \<Rightarrow> meta_Asset \<times> bool \<times> error option" where
  "no_GetAsset h ip names = (zero_meta_Asset, False, None)"

definition demo_ext :: extern where
  "demo_ext = \<lparr>Validate = accept_config, IP_String = ipv4_String, Unmarshal = line_Unmarshal,
                JSON = line_JSON, wise_NewHandle = no_NewHandle, wise_GetAsset = no_GetAsset,
                FieldPrefix = ''asset''\<rparr>"

definition count_clock :: "nat \<Rightarrow> Time" where
  "count_clock n = int n"

subsection \<open>Files, configurations and a new cache\<close>

definition no_files :: fs where
  "no_files = Map.empty"

definition empty_file :: os_file where
  "empty_file = \<lparr>readable = True, writable = True, bytes = []\<rparr>"

definition one_file :: fs where
  "one_file = [''assets.json'' \<mapsto> File empty_file]"

definition plain_config :: Config where
  "plain_config = \<lparr>Prune = True, DumpJSONAssets = [], Wise = None\<rparr>"

definition persist_config :: Config where
  "persist_config = \<lparr>Prune = True, DumpJSONAssets = ''assets.json'', Wise = None\<rparr>"

definition persist_json :: persist where
  "persist_json = \<lparr>dump = 5 * Second, persist_assets = ''assets.json''\<rparr>"

definition no_errs :: ErrChan where
  "no_errs = \<lparr>Max_errs = 100, items = []\<rparr>"

text \<open>The cache that \<open>NewGlobalCache\<close> builds from \<open>plain_config\<close>.\<close>

definition fresh_cache :: GlobalCache where
  "fresh_cache =
     \<lparr>assets = Some Map.empty,
      persist = \<lparr>dump = 5 * Second, persist_assets = []\<rparr>,
      prune = \<lparr>enabled = True, interval = 30 * Second, period = 120 * Second\<rparr>,
      wise = None,
      Errs = \<lparr>Max_errs = 100, items = []\<rparr>\<rparr>"

text \<open>
  A run of the housekeeper that starts at 0 and is cancelled after 31 seconds, with
  branches that take no time.
\<close>

definition run31 :: "(signal \<times> Time) list" where
  "run31 = [(DumpC, 5 * Second), (DumpC, 10 * Second), (DumpC, 15 * Second),
            (DumpC, 20 * Second), (DumpC, 25 * Second), (DumpC, 30 * Second),
            (CtxDone, 31 * Second)]"

subsection \<open>Registry records, a store and handlers\<close>

text \<open>
  A registry record as the pair of its keys and its asset projection (\<open>Keys\<close> is \<open>fst\<close>,
  \<open>Asset\<close> is \<open>snd\<close>); a store that is the list of its values, scanned in order and
  appended to by \<open>Set\<close>; and a decoder of the two values \<open>r1\<close> and \<open>r2\<close>. Both records
  expose the key \<open>web01\<close>.
\<close>

type_synonym pair_Record = "string list \<times> meta_Asset"

definition rec1 :: pair_Record where
  "rec1 = ([''10.0.0.1'', ''web01''], \<lparr>Host = ''web01'', IP = ip_10_0_0_1\<rparr>)"

definition rec2 :: pair_Record where
  "rec2 = ([''10.0.0.2'', ''web01''], \<lparr>Host = ''web01-old'', IP = ip_10_0_0_2\<rparr>)"

definition scan_all :: "string list \<Rightarrow> string \<Rightarrow> string list" where
  "scan_all db prefix = db"

definition set_append :: "string list \<Rightarrow> string \<Rightarrow> string \<Rightarrow> pair_Record \<Rightarrow> string list" where
  "set_append db prefix key val = db @ [if val = rec1 then ''r1'' else ''r2'']"

definition two_gob :: "string \<Rightarrow> string + pair_Record" where
  "two_gob d =
     (if d = ''r1'' then Inr rec1 else if d = ''r2'' then Inr rec2 else Inl ''gob: bad data'')"

definition two_records :: "string list enrich_Config" where
  "two_records = \<lparr>Persist = Some [''r1'', ''r2'']\<rparr>"

text \<open>
  The handler of an empty store; the handler whose registry holds \<open>rec1\<close>; and the latter
  with the host \<open>web02\<close> in its missing-lookup set.
\<close>

definition handler0 :: "(pair_Record, string list) Handler" where
  "handler0 =
     \<lparr>Counts = \<lparr>Events = 0, MissingMeta = 0, AssetPickups = 0, AssetUpdates = 0, Assets = 0,
                 ParseErrs = \<lparr>Suricata = 0, Windows = 0, Syslog = 0, Snoopy = 0\<rparr>\<rparr>,
      missingLookupSet = Map.empty,
      assets_h = Map.empty,
      persist_h = []\<rparr>"

definition handler1 :: "(pair_Record, string list) Handler" where
  "handler1 = handler0\<lparr>assets_h := [''10.0.0.1'' \<mapsto> rec1, ''web01'' \<mapsto> rec1]\<rparr>"

definition handler1_missing :: "(pair_Record, string list) Handler" where
  "handler1_missing = handler1\<lparr>missingLookupSet := [''web02'' \<mapsto> True]\<rparr>"

subsection \<open>Events\<close>

text \<open>
  A decoder that rejects the empty input with the error of \<open>json.Unmarshal\<close> and accepts
  the rest; four asset stubs; an event without an asset sub-object and one with an asset
  and a source.
\<close>

definition nonempty_Unmarshal :: "event_struct \<Rightarrow> string \<Rightarrow> string + (string \<times> AssetFull option)" where
  "nonempty_Unmarshal s raw =
     (if raw = [] then Inl ''unexpected end of JSON input'' else Inr (raw, None))"

definition stub_ip1 :: meta_Asset where
  "stub_ip1 = \<lparr>Host = [], IP = ip_10_0_0_1\<rparr>"

definition stub_ip3 :: meta_Asset where
  "stub_ip3 = \<lparr>Host = [], IP = ip_10_0_0_3\<rparr>"

definition stub_web01 :: meta_Asset where
  "stub_web01 = \<lparr>Host = ''web01'', IP = None\<rparr>"

definition stub_web02 :: meta_Asset where
  "stub_web02 = \<lparr>Host = ''web02'', IP = ip_10_0_0_2\<rparr>"

definition ev_none :: "string GameEvent" where
  "ev_none = \<lparr>struct = T_Syslog, decoded = ''su: session opened'', GetAsset = None\<rparr>"

definition fa_web :: AssetFull where
  "fa_web = \<lparr>Asset = stub_web01, Source = Some stub_web02, Destination = None\<rparr>"

definition ev_web :: "string GameEvent" where
  "ev_web = \<lparr>struct = T_Suricata, decoded = ''alert'', GetAsset = Some fa_web\<rparr>"

section \<open>Properties of the global asset cache\<close>

subsection \<open>The prune pass\<close>

lemma Sub_gt_iff:
  "minDuration \<le> per \<Longrightarrow> per < maxDuration \<Longrightarrow> Sub t u > per \<longleftrightarrow> t - u > per"
  by (auto simp: Sub_def Let_def)

lemma prune_visit_live:
  "live (prune_visit now per k v s) =
     (case cache_asset v of
        Some a \<Rightarrow> if prune_hit now per a then (live s)(k := None) else live s
      | None \<Rightarrow> live s)"
  by (cases v) (simp_all add: Let_def)

lemma prune_range_live:
  "live (sync_Range m ks (prune_visit now per) s) k =
     (if k \<in> set ks then
        (case m k of
           None \<Rightarrow> live s k
         | Some v \<Rightarrow>
             (case cache_asset v of
                Some a \<Rightarrow> if prune_hit now per a then None else live s k
              | None \<Rightarrow> live s k))
      else live s k)"
proof (induction ks arbitrary: s)
  case Nil
  then show ?case by simp
next
  case (Cons x xs)
  show ?case
  proof (cases "m x")
    case None
    then show ?thesis using Cons.IH [of s] by auto
  next
    case (Some v)
    then show ?thesis
      using Cons.IH [of "prune_visit now per x v s"]
      by (auto simp: prune_visit_live split: option.splits)
  qed
qed

text \<open>
  C3. One prune pass over a cache \<open>m\<close>, visiting its keys in any order \<open>ks\<close>, with a prune
  window that is a Duration: an entry is deleted exactly when it is an asset record (stored
  by value or by pointer) with \<open>IsAsset\<close> false whose age \<open>now - updated\<close> exceeds the
  window. Every other entry, so every entry with \<open>IsAsset\<close> true whatever its age, is
  still in the cache with its value, and no entry is added.
\<close>

theorem prune_pass_exact:
  assumes "set ks = dom m" and "minDuration \<le> per" and "per < maxDuration"
  shows "live (prune_pass now per ks m) k =
     (case m k of
        None \<Rightarrow> None
      | Some v \<Rightarrow>
          (case cache_asset v of
             Some a \<Rightarrow> if \<not> IsAsset a \<and> now - updated a > per then None else Some v
           | None \<Rightarrow> Some v))"
proof -
  have "k \<in> set ks \<longleftrightarrow> m k \<noteq> None" using assms(1) by auto
  then show ?thesis
    unfolding prune_pass_def prune_range_live
    by (auto simp: prune_hit_def Sub_gt_iff [OF assms(2,3)] split: option.splits)
qed

theorem prune_pass_exact_witness:
  "set [''10.0.0.2'', ''10.0.0.1'', ''10.0.0.3''] = dom cache3
   \<and> minDuration \<le> 120 * Second \<and> 120 * Second < maxDuration
   \<and> live (prune_pass (130 * Second) (120 * Second)
        [''10.0.0.2'', ''10.0.0.1'', ''10.0.0.3''] cache3) ''10.0.0.1'' = None
   \<and> live (prune_pass (130 * Second) (120 * Second)
        [''10.0.0.2'', ''10.0.0.1'', ''10.0.0.3''] cache3) ''10.0.0.2'' = Some (AssetP fresh_negative)
   \<and> live (prune_pass (130 * Second) (120 * Second)
        [''10.0.0.2'', ''10.0.0.1'', ''10.0.0.3''] cache3) ''10.0.0.3'' = Some (AssetV old_positive)"
proof -
  have h1: "set [''10.0.0.2'', ''10.0.0.1'', ''10.0.0.3''] = dom cache3"
    by (auto simp: cache3_def)
  have h2: "minDuration \<le> 120 * Second" by (simp add: minDuration_def Second_def)
  have h3: "120 * Second < maxDuration" by (simp add: maxDuration_def Second_def)
  note th = prune_pass_exact [OF h1 h2 h3, of "130 * Second"]
  show ?thesis
    using h1 h2 h3 th [of "''10.0.0.1''"] th [of "''10.0.0.2''"] th [of "''10.0.0.3''"]
    by (simp add: cache3_def stale_negative_def fresh_negative_def old_positive_def Second_def)
qed

subsection \<open>Construction with a persistence path\<close>

text \<open>
  C10. With a persistence path configured, a configuration that validates and a path that
  names nothing, \<open>NewGlobalCache\<close> returns the error of \<open>os.Stat\<close> and no cache; and
  whenever it returns a cache, the path names a file (not a directory, not nothing), which
  it could open.
\<close>

theorem NewGlobalCache_needs_file:
  assumes "DumpJSONAssets c \<noteq> []"
  shows "(Validate ext c = None \<and> files (DumpJSONAssets c) = None
           \<longrightarrow> NewGlobalCache ext files clock c = (None, Some (StatError (DumpJSONAssets c))))
       \<and> (fst (NewGlobalCache ext files clock c) \<noteq> None
           \<longrightarrow> (\<exists>f. files (DumpJSONAssets c) = Some (File f) \<and> readable f))"
  using assms
  by (auto simp: NewGlobalCache_def setup_persist_def os_Stat_def os_Open_def FileNotExists_def
      Let_def split: option.splits sum.splits fs_node.splits if_splits prod.splits)

theorem NewGlobalCache_needs_file_witness:
  "DumpJSONAssets persist_config \<noteq> []
   \<and> Validate demo_ext persist_config = None
   \<and> no_files (DumpJSONAssets persist_config) = None
   \<and> NewGlobalCache demo_ext no_files count_clock persist_config =
        (None, Some (StatError ''assets.json''))
   \<and> fst (NewGlobalCache demo_ext one_file count_clock persist_config) \<noteq> None
   \<and> one_file (DumpJSONAssets persist_config) = Some (File empty_file)
   \<and> readable empty_file"
proof -
  have h: "DumpJSONAssets persist_config \<noteq> []" by (simp add: persist_config_def)
  have a: "Validate demo_ext persist_config = None \<and> no_files (DumpJSONAssets persist_config) = None"
    by (simp add: demo_ext_def accept_config_def no_files_def)
  have b: "fst (NewGlobalCache demo_ext one_file count_clock persist_config) \<noteq> None"
    by (simp add: NewGlobalCache_def setup_persist_def os_Stat_def os_Open_def FileNotExists_def
        demo_ext_def accept_config_def persist_config_def one_file_def empty_file_def
        ScanLines_def)
  show ?thesis
    using h a b NewGlobalCache_needs_file [OF h, of demo_ext no_files count_clock]
    by (simp add: persist_config_def one_file_def empty_file_def)
qed

subsection \<open>GetIP without a directory service\<close>

lemma NewGlobalCache_plain:
  "NewGlobalCache demo_ext no_files count_clock plain_config = (Some fresh_cache, None)"
  by (simp add: NewGlobalCache_def demo_ext_def accept_config_def plain_config_def fresh_cache_def)

text \<open>
  C1, as the code has it. With no directory service configured, \<open>GetIP\<close> for an address that
  is not in the cache returns a new record with \<open>IsAsset\<close> false, stamped with the time of
  the call, and \<open>false\<close>; it returns before the \<open>Store\<close>, so the cache is unchanged and a
  second call for the same address is a miss again: it returns a second new record and
  \<open>false\<close>.
\<close>

theorem GetIP_no_wise_miss:
  assumes "assets g = Some m" and "m (IP_String ext key) = None" and "wise g = None"
  shows "GetIP ext now g key =
           ((Some \<lparr>Data = zero_meta_Asset, IsAsset = False, updated = now\<rparr>, False), g)
       \<and> GetIP ext later (snd (GetIP ext now g key)) key =
           ((Some \<lparr>Data = zero_meta_Asset, IsAsset = False, updated = later\<rparr>, False), g)"
  using assms by (simp add: GetIP_def)

theorem GetIP_no_wise_miss_witness:
  "assets fresh_cache = Some Map.empty
   \<and> Map.empty (IP_String demo_ext ip_10_0_0_1) = (None :: cache_val option)
   \<and> wise fresh_cache = None
   \<and> GetIP demo_ext 7 fresh_cache ip_10_0_0_1 =
        ((Some \<lparr>Data = zero_meta_Asset, IsAsset = False, updated = 7\<rparr>, False), fresh_cache)
   \<and> GetIP demo_ext 8 (snd (GetIP demo_ext 7 fresh_cache ip_10_0_0_1)) ip_10_0_0_1 =
        ((Some \<lparr>Data = zero_meta_Asset, IsAsset = False, updated = 8\<rparr>, False), fresh_cache)"
proof -
  have h1: "assets fresh_cache = Some Map.empty" by (simp add: fresh_cache_def)
  have h2: "Map.empty (IP_String demo_ext ip_10_0_0_1) = (None :: cache_val option)" by simp
  have h3: "wise fresh_cache = None" by (simp add: fresh_cache_def)
  show ?thesis
    using h1 h2 h3
      GetIP_no_wise_miss [where ext = demo_ext and key = ip_10_0_0_1 and now = 7 and later = 8,
        OF h1 h2 h3]
    by blast
qed

text \<open>
  The claim C1 as stated fails: in the cache \<open>NewGlobalCache\<close> builds without a directory
  service, the second \<open>GetIP\<close> for 10.0.0.1 is not a cache hit.
\<close>

theorem GetIP_no_wise_second_call_counterexample:
  "NewGlobalCache demo_ext no_files count_clock plain_config = (Some fresh_cache, None)
   \<and> wise fresh_cache = None
   \<and> fst (GetIP demo_ext 7 fresh_cache ip_10_0_0_1) =
        (Some \<lparr>Data = zero_meta_Asset, IsAsset = False, updated = 7\<rparr>, False)
   \<and> snd (GetIP demo_ext 7 fresh_cache ip_10_0_0_1) = fresh_cache
   \<and> \<not> snd (fst (GetIP demo_ext 8 (snd (GetIP demo_ext 7 fresh_cache ip_10_0_0_1)) ip_10_0_0_1))"
  by (simp add: NewGlobalCache_plain) (simp add: GetIP_def fresh_cache_def)

subsection \<open>The housekeeper's timers\<close>

text \<open>
  The loop can take the prune branch when the prune ticker is ready no later than the dump
  ticker; with the intervals of \<open>NewGlobalCache\<close> it never is.
\<close>

lemma housekeeper_tick_when_first:
  assumes "interval pr \<le> dump ps"
  shows "housekeeper pr ps None t [(TickC, t + interval pr)]"
proof -
  have "selects pr ps None t TickC (t + interval pr)"
    using assms by (simp add: selects_def)
  then show ?thesis
    by (rule hk_tick [where t' = "t + interval pr"]) (simp_all add: hk_running)
qed

lemma NewGlobalCache_timers:
  assumes "fst (NewGlobalCache ext files clock c) = Some gc"
  shows "interval (prune gc) = 30 * Second \<and> dump (persist gc) = 5 * Second
       \<and> period (prune gc) = 120 * Second \<and> enabled (prune gc) = Prune c"
  using assms
  by (auto simp: NewGlobalCache_def setup_persist_def Let_def
      split: option.splits sum.splits if_splits prod.splits)

lemma housekeeper_no_tick:
  assumes "housekeeper pr ps cancel t evs" and "dump ps < interval pr"
  shows "TickC \<notin> fst ` set evs"
  using assms
proof (induction rule: housekeeper.induct)
  case (hk_running t)
  then show ?case by simp
next
  case (hk_break t w)
  then show ?case by simp
next
  case (hk_tick t w t' evs)
  then show ?case by (simp add: selects_def)
next
  case (hk_dump t w t' evs)
  then show ?case by simp
qed

text \<open>
  C8, as the code runs. The loop makes both tickers anew in every iteration, so the prune
  ticker never gets past the 5 seconds after which the dump ticker of the same iteration
  is ready: in every run of the housekeeper of a cache that \<open>NewGlobalCache\<close> built,
  however long, \<open>select\<close> never takes the prune branch.
\<close>

theorem housekeeper_never_prunes:
  assumes "fst (NewGlobalCache ext files clock c) = Some gc"
    and "housekeeper (prune gc) (persist gc) cancel t evs"
  shows "TickC \<notin> fst ` set evs"
proof -
  have "dump (persist gc) < interval (prune gc)"
    using NewGlobalCache_timers [OF assms(1)] by (simp add: Second_def)
  with assms(2) show ?thesis by (rule housekeeper_no_tick)
qed

theorem housekeeper_never_prunes_witness:
  "fst (NewGlobalCache demo_ext no_files count_clock plain_config) = Some fresh_cache
   \<and> enabled (prune fresh_cache)
   \<and> housekeeper (prune fresh_cache) (persist fresh_cache) (Some (31 * Second)) 0 run31
   \<and> TickC \<notin> fst ` set run31"
proof -
  have h1: "fst (NewGlobalCache demo_ext no_files count_clock plain_config) = Some fresh_cache"
    by (simp add: NewGlobalCache_def demo_ext_def accept_config_def plain_config_def
        fresh_cache_def)
  have sel: "selects (prune fresh_cache) (persist fresh_cache) (Some (31 * Second)) t DumpC
      (t + 5 * Second)" if "t + 5 * Second \<le> 31 * Second" for t
    using that by (simp add: selects_def fresh_cache_def Second_def)
  have brk: "selects (prune fresh_cache) (persist fresh_cache) (Some (31 * Second))
      (30 * Second) CtxDone (31 * Second)"
    by (simp add: selects_def fresh_cache_def Second_def)
  have h2: "housekeeper (prune fresh_cache) (persist fresh_cache) (Some (31 * Second)) 0 run31"
    unfolding run31_def
    apply (rule hk_dump [where t' = "5 * Second"])
    using sel [of 0] apply (simp add: Second_def)
     apply simp
    apply (rule hk_dump [where t' = "10 * Second"])
    using sel [of "5 * Second"] apply (simp add: Second_def)
     apply simp
    apply (rule hk_dump [where t' = "15 * Second"])
    using sel [of "10 * Second"] apply (simp add: Second_def)
     apply simp
    apply (rule hk_dump [where t' = "20 * Second"])
    using sel [of "15 * Second"] apply (simp add: Second_def)
     apply simp
    apply (rule hk_dump [where t' = "25 * Second"])
    using sel [of "20 * Second"] apply (simp add: Second_def)
     apply simp
    apply (rule hk_dump [where t' = "30 * Second"])
    using sel [of "25 * Second"] apply (simp add: Second_def)
     apply simp
    apply (rule hk_break)
    apply (rule brk)
    done
  show ?thesis
    using h1 h2 housekeeper_never_prunes [OF h1 h2] by (simp add: fresh_cache_def)
qed

subsection \<open>Dump and reload\<close>

lemma dump_range:
  "sync_Range m ks dump_visit acc =
     acc @ List.map_filter
             (\<lambda>k. case Option.bind (m k) cache_asset of
                     Some a \<Rightarrow> if IsAsset a then Some a else None
                   | None \<Rightarrow> None) ks"
proof (induction ks arbitrary: acc)
  case Nil
  then show ?case by (simp add: List.map_filter_simps)
next
  case (Cons k ks)
  show ?case
  proof (cases "m k")
    case None
    then show ?thesis using Cons.IH [of acc] by (simp add: List.map_filter_simps)
  next
    case (Some v)
    then show ?thesis
      using Cons.IH [of "dump_visit k v acc"]
      by (cases v) (simp_all add: List.map_filter_simps)
  qed
qed

lemma write_stuff_bytes:
  assumes "\<forall>a\<in>set as. \<not> isl (JSON ext a)" and "files path = Some (File f0)"
  shows "write_stuff ext as path files =
     Some (files(path \<mapsto>
       File (f0\<lparr>bytes := bytes f0 @ concat (map (\<lambda>a. projr (JSON ext a) @ [LF]) as)\<rparr>)))"
  using assms
proof (induction as arbitrary: files f0)
  case Nil
  then show ?case by (auto simp: fun_eq_iff)
next
  case (Cons a as)
  then obtain j where j: "JSON ext a = Inr j" by (cases "JSON ext a") auto
  have w: "file_write files path (j @ [LF]) =
      files(path \<mapsto> File (f0\<lparr>bytes := bytes f0 @ j @ [LF]\<rparr>))"
    using Cons.prems(2) by (simp add: file_write_def)
  have "write_stuff ext (a # as) path files =
      write_stuff ext as path (file_write files path (j @ [LF]))"
    using j by simp
  also have "\<dots> = write_stuff ext as path
      (files(path \<mapsto> File (f0\<lparr>bytes := bytes f0 @ j @ [LF]\<rparr>)))"
    by (simp only: w)
  also have "\<dots> =
     Some ((files(path \<mapsto> File (f0\<lparr>bytes := bytes f0 @ j @ [LF]\<rparr>)))(path \<mapsto>
       File ((f0\<lparr>bytes := bytes f0 @ j @ [LF]\<rparr>)
          \<lparr>bytes := bytes (f0\<lparr>bytes := bytes f0 @ j @ [LF]\<rparr>)
              @ concat (map (\<lambda>a. projr (JSON ext a) @ [LF]) as)\<rparr>)))"
    by (rule Cons.IH) (use Cons.prems in simp_all)
  also have "\<dots> = Some (files(path \<mapsto>
       File (f0\<lparr>bytes := bytes f0 @ concat (map (\<lambda>a. projr (JSON ext a) @ [LF]) (a # as))\<rparr>)))"
    using j by simp
  finally show ?case .
qed

lemma scan_from_line:
  assumes "LF \<notin> set l" and "length (cur @ l) < MaxScanTokenSize"
  shows "scan_from cur (l @ LF # rest) = dropCR (cur @ l) # scan_from [] rest"
  using assms
proof (induction l arbitrary: cur)
  case Nil
  then show ?case by simp
next
  case (Cons c l)
  then show ?case using Cons.IH [of "cur @ [c]"] by auto
qed

lemma ScanLines_lines:
  assumes "\<forall>l\<in>set ls. LF \<notin> set l \<and> length l < MaxScanTokenSize"
  shows "ScanLines (concat (map (\<lambda>l. l @ [LF]) ls)) = map dropCR ls"
  using assms
proof (induction ls)
  case Nil
  then show ?case by (simp add: ScanLines_def)
next
  case (Cons l ls)
  then show ?case
    using scan_from_line [of l "[]" "concat (map (\<lambda>l. l @ [LF]) ls)"]
    by (simp add: ScanLines_def)
qed

lemma load_lines_ok:
  assumes "\<forall>l\<in>set ls. \<exists>b. Unmarshal ext l = Inr b \<and> IsAsset b"
  shows "\<exists>m'. load_lines ext clock ls n m0 = Inr m'
     \<and> dom m' = dom m0 \<union> (\<lambda>l. IP_String ext (IP (Data (projr (Unmarshal ext l))))) ` set ls
     \<and> (\<forall>k v. m' k = Some v \<longrightarrow>
           m0 k = Some v \<or> (\<exists>b. v = AssetV b \<and> IsAsset b \<and> IP_String ext (IP (Data b)) = k))"
  using assms
proof (induction ls arbitrary: n m0)
  case Nil
  then show ?case by simp
next
  case (Cons l ls)
  then obtain b where b: "Unmarshal ext l = Inr b" "IsAsset b" by auto
  define m1 where
    "m1 = m0(IP_String ext (IP (Data b)) \<mapsto> AssetV (b\<lparr>updated := clock n\<rparr>))"
  from Cons.IH [of "n + 1" m1] Cons.prems
  obtain m' where m': "load_lines ext clock ls (n + 1) m1 = Inr m'"
    and d: "dom m' = dom m1 \<union> (\<lambda>l. IP_String ext (IP (Data (projr (Unmarshal ext l))))) ` set ls"
    and v: "\<And>k v. m' k = Some v \<Longrightarrow>
           m1 k = Some v \<or> (\<exists>b. v = AssetV b \<and> IsAsset b \<and> IP_String ext (IP (Data b)) = k)"
    by auto
  have 1: "load_lines ext clock (l # ls) n m0 = Inr m'"
    using b m' by (simp add: m1_def Let_def)
  have 2: "dom m' = dom m0 \<union>
      (\<lambda>l. IP_String ext (IP (Data (projr (Unmarshal ext l))))) ` set (l # ls)"
    using d b by (auto simp: m1_def)
  have 3: "m0 k = Some v \<or> (\<exists>b. v = AssetV b \<and> IsAsset b \<and> IP_String ext (IP (Data b)) = k)"
    if "m' k = Some v" for k v
    using v [OF that] b by (auto simp: m1_def split: if_splits)
  show ?case using 1 2 3 by blast
qed

lemma map_filter_all_Some:
  "\<forall>x\<in>set xs. g x = Some (h x) \<Longrightarrow> List.map_filter g xs = map h xs"
  by (induction xs) (simp_all add: List.map_filter_simps)

lemma NewGlobalCache_loads:
  assumes "Validate ext c = None" and "DumpJSONAssets c \<noteq> []"
    and "files (DumpJSONAssets c) = Some (File f')" and "readable f'"
    and "load_lines ext clock (ScanLines (bytes f')) 0 Map.empty = Inr m'"
  shows "\<exists>gc'. fst (NewGlobalCache ext files clock c) = Some gc' \<and> assets gc' = Some m'"
  using assms
  by (auto simp: NewGlobalCache_def setup_persist_def os_Stat_def os_Open_def FileNotExists_def
      Let_def split: option.splits prod.splits)

lemma dump_branch_nothing:
  assumes "sync_Range m ks dump_visit [] = []"
  shows "dump_branch ext p ks m (files, errs) = Some (files, errs)"
  using assms by (simp add: dump_branch_def)

lemma dump_branch_writes:
  assumes "persist_assets p = path" and "path \<noteq> []"
    and "sync_Range m ks dump_visit [] = stuff" and "stuff \<noteq> []"
    and "\<forall>a\<in>set stuff. \<not> isl (JSON ext a)"
    and "files path = Some (File f)" and "readable f" and "writable f"
  shows "dump_branch ext p ks m (files, errs) =
     Some (files(path \<mapsto>
             File (f\<lparr>bytes := concat (map (\<lambda>a. projr (JSON ext a) @ [LF]) stuff)\<rparr>)), errs)"
proof -
  have c: "os_Create files path = Inr (files(path \<mapsto> File (f\<lparr>bytes := []\<rparr>)))"
    using assms(6-8) by (simp add: os_Create_def)
  have w: "write_stuff ext stuff path (files(path \<mapsto> File (f\<lparr>bytes := []\<rparr>))) =
     Some ((files(path \<mapsto> File (f\<lparr>bytes := []\<rparr>)))(path \<mapsto>
       File ((f\<lparr>bytes := []\<rparr>)\<lparr>bytes := bytes (f\<lparr>bytes := []\<rparr>)
          @ concat (map (\<lambda>a. projr (JSON ext a) @ [LF]) stuff)\<rparr>)))"
    by (rule write_stuff_bytes) (use assms(5) in simp_all)
  show ?thesis
    using assms(1-4) by (simp add: dump_branch_def c w)
qed

text \<open>
  C4. A cache \<open>m\<close> of \<open>N\<close> records, all with \<open>IsAsset\<close> true, each stored (by value or by
  pointer) under the string of its own IP, each with a JSON encoding of one line that
  decodes to a record of the same IP and \<open>IsAsset\<close>. The persistence path names a file the
  process may read and write (empty when the cache is empty, since a dump of nothing writes
  nothing). Then one dump cycle, visiting the keys in any order, succeeds and leaves a file
  of \<open>N\<close> lines, each the JSON of a record of the cache; and \<open>NewGlobalCache\<close> on that path
  returns a cache whose keys are the keys of \<open>m\<close>, each holding a record with \<open>IsAsset\<close>
  true and that IP.
\<close>

theorem dump_reload_roundtrip:
  assumes ks: "distinct ks" "set ks = dom m"
    and pos: "\<forall>k v. m k = Some v \<longrightarrow>
        (\<exists>a. cache_asset v = Some a \<and> IsAsset a \<and> IP_String ext (IP (Data a)) = k
           \<and> one_line_codec ext a)"
    and path: "persist_assets p = DumpJSONAssets c" "DumpJSONAssets c \<noteq> []"
    and fil: "files (DumpJSONAssets c) = Some (File f)" "readable f" "writable f"
    and stale: "dom m = {} \<longrightarrow> bytes f = []"
    and cfg: "Validate ext c = None"
  shows "\<exists>files' f' gc' m'.
      dump_branch ext p ks m (files, errs) = Some (files', errs)
      \<and> files' (DumpJSONAssets c) = Some (File f')
      \<and> length (ScanLines (bytes f')) = card (dom m)
      \<and> (\<forall>l\<in>set (ScanLines (bytes f')).
            \<exists>k v a. m k = Some v \<and> cache_asset v = Some a \<and> JSON ext a = Inr l)
      \<and> fst (NewGlobalCache ext files' clock c) = Some gc'
      \<and> assets gc' = Some m'
      \<and> dom m' = dom m
      \<and> (\<forall>k\<in>dom m. \<exists>b. m' k = Some (AssetV b) \<and> IsAsset b
            \<and> IP_String ext (IP (Data b)) = k)"
proof -
  define g where "g = (\<lambda>k. case Option.bind (m k) cache_asset of
                     Some a \<Rightarrow> if IsAsset a then Some a else None
                   | None \<Rightarrow> None)"
  define A where "A = (\<lambda>k. the (g k))"
  define J where "J = (\<lambda>a. projr (JSON ext a))"
  define K where "K = (\<lambda>l. IP_String ext (IP (Data (projr (Unmarshal ext l)))))"
  have entry: "\<exists>v. m k = Some v \<and> cache_asset v = Some (A k)"
    and gA: "g k = Some (A k)"
    and key: "IP_String ext (IP (Data (A k))) = k"
    and codec: "one_line_codec ext (A k)"
    if "k \<in> set ks" for k
  proof -
    from that ks(2) obtain v where v: "m k = Some v" by auto
    with pos obtain a where a: "cache_asset v = Some a" "IsAsset a"
      "IP_String ext (IP (Data a)) = k" "one_line_codec ext a" by blast
    have "g k = Some a" using v a by (simp add: g_def)
    then have "A k = a" by (simp add: A_def)
    then show "\<exists>v. m k = Some v \<and> cache_asset v = Some (A k)" and "g k = Some (A k)"
      and "IP_String ext (IP (Data (A k))) = k" and "one_line_codec ext (A k)"
      using v a \<open>g k = Some a\<close> by simp_all
  qed
  have json: "JSON ext (A k) = Inr (J (A k))" and nolf: "LF \<notin> set (J (A k))"
    and nocr: "dropCR (J (A k)) = J (A k)" and short: "length (J (A k)) < MaxScanTokenSize"
    and decodes: "\<exists>b. Unmarshal ext (J (A k)) = Inr b \<and> IsAsset b \<and> IP (Data b) = IP (Data (A k))"
    if "k \<in> set ks" for k
  proof -
    from codec [OF that] obtain j where j: "JSON ext (A k) = Inr j"
      by (cases "JSON ext (A k)") (simp_all add: one_line_codec_def)
    then have jJ: "J (A k) = j" by (simp add: J_def)
    from codec [OF that] j obtain b where b: "Unmarshal ext j = Inr b"
      by (cases "Unmarshal ext j") (simp_all add: one_line_codec_def)
    have "IsAsset (A k)"
      using entry [OF that] pos by force
    then show "JSON ext (A k) = Inr (J (A k))" and "LF \<notin> set (J (A k))"
      and "dropCR (J (A k)) = J (A k)" and "length (J (A k)) < MaxScanTokenSize"
      and "\<exists>b. Unmarshal ext (J (A k)) = Inr b \<and> IsAsset b \<and> IP (Data b) = IP (Data (A k))"
      using codec [OF that] j b by (simp_all add: one_line_codec_def jJ)
  qed
  have stuff: "sync_Range m ks dump_visit [] = map A ks"
    unfolding dump_range g_def [symmetric]
    by (simp add: map_filter_all_Some [of ks g A] gA)
  have card: "card (dom m) = length ks"
    using ks by (metis distinct_card)
  show ?thesis
  proof (cases "ks = []")
    case True
    then have e: "dom m = {}" using ks(2) by simp
    then have b: "bytes f = []" using stale by simp
    have d: "dump_branch ext p ks m (files, errs) = Some (files, errs)"
      by (rule dump_branch_nothing) (simp add: stuff True)
    have l: "load_lines ext clock (ScanLines (bytes f)) 0 Map.empty = Inr Map.empty"
      by (simp add: b ScanLines_def)
    from NewGlobalCache_loads [where files = files and f' = f and m' = Map.empty
        and clock = clock, OF cfg path(2) fil(1,2) l]
    obtain gc' where "fst (NewGlobalCache ext files clock c) = Some gc'"
      and "assets gc' = Some Map.empty" by blast
    then show ?thesis
      apply -
      apply (rule exI [of _ files], rule exI [of _ f], rule exI [of _ gc'],
          rule exI [of _ Map.empty])
      using d fil(1) e b by (simp add: ScanLines_def)
  next
    case False
    define f' where "f' = f\<lparr>bytes := concat (map (\<lambda>a. projr (JSON ext a) @ [LF]) (map A ks))\<rparr>"
    define files' where "files' = files(DumpJSONAssets c \<mapsto> File f')"
    have d: "dump_branch ext p ks m (files, errs) = Some (files', errs)"
      unfolding files'_def f'_def
    proof (rule dump_branch_writes [where files = files and f = f and stuff = "map A ks"])
      show "persist_assets p = DumpJSONAssets c" by (rule path(1))
      show "DumpJSONAssets c \<noteq> []" by (rule path(2))
      show "sync_Range m ks dump_visit [] = map A ks" by (rule stuff)
      show "map A ks \<noteq> []" using False by simp
      show "\<forall>a\<in>set (map A ks). \<not> isl (JSON ext a)" using json by auto
      show "files (DumpJSONAssets c) = Some (File f)" by (rule fil(1))
      show "readable f" by (rule fil(2))
      show "writable f" by (rule fil(3))
    qed
    have fl: "files' (DumpJSONAssets c) = Some (File f')" by (simp add: files'_def)
    have by': "bytes f' = concat (map (\<lambda>l. l @ [LF]) (map (\<lambda>k. J (A k)) ks))"
      by (simp add: f'_def J_def comp_def)
    have sc: "ScanLines (bytes f') = map (\<lambda>k. J (A k)) ks"
    proof -
      have "ScanLines (bytes f') = map dropCR (map (\<lambda>k. J (A k)) ks)"
        unfolding by' by (rule ScanLines_lines) (use nolf short in auto)
      also have "\<dots> = map (\<lambda>k. J (A k)) ks" using nocr by simp
      finally show ?thesis .
    qed
    have un: "\<forall>l\<in>set (map (\<lambda>k. J (A k)) ks). \<exists>b. Unmarshal ext l = Inr b \<and> IsAsset b"
      using decodes by auto
    from load_lines_ok [OF un, of clock 0 Map.empty]
    obtain m' where l: "load_lines ext clock (map (\<lambda>k. J (A k)) ks) 0 Map.empty = Inr m'"
      and dm: "dom m' = K ` set (map (\<lambda>k. J (A k)) ks)"
      and vm: "\<And>k v. m' k = Some v \<Longrightarrow>
          \<exists>b. v = AssetV b \<and> IsAsset b \<and> IP_String ext (IP (Data b)) = k"
      unfolding K_def by auto
    have Kk: "K (J (A k)) = k" if "k \<in> set ks" for k
      using decodes [OF that] key [OF that] by (auto simp: K_def)
    have "(\<lambda>k. K (J (A k))) ` set ks = (\<lambda>k. k) ` set ks"
      by (rule image_cong) (simp_all add: Kk)
    then have dom: "dom m' = dom m"
      unfolding dm using ks(2) by (simp add: image_image)
    have rf: "readable f'" using fil(2) by (simp add: f'_def)
    have l': "load_lines ext clock (ScanLines (bytes f')) 0 Map.empty = Inr m'"
      unfolding sc by (rule l)
    from NewGlobalCache_loads [where files = files' and f' = f' and m' = m'
        and clock = clock, OF cfg path(2) fl rf l']
    obtain gc' where gc: "fst (NewGlobalCache ext files' clock c) = Some gc'"
      "assets gc' = Some m'" by blast
    have vals: "\<forall>k\<in>dom m. \<exists>b. m' k = Some (AssetV b) \<and> IsAsset b
            \<and> IP_String ext (IP (Data b)) = k"
    proof
      fix k assume "k \<in> dom m"
      then obtain v where "m' k = Some v" using dom by auto
      with vm [OF this] show "\<exists>b. m' k = Some (AssetV b) \<and> IsAsset b
            \<and> IP_String ext (IP (Data b)) = k" by auto
    qed
    have lines: "\<forall>l\<in>set (ScanLines (bytes f')).
            \<exists>k v a. m k = Some v \<and> cache_asset v = Some a \<and> JSON ext a = Inr l"
      unfolding sc
    proof
      fix l assume "l \<in> set (map (\<lambda>k. J (A k)) ks)"
      then obtain k where k: "k \<in> set ks" "l = J (A k)" by auto
      from entry [OF k(1)] obtain v where "m k = Some v" "cache_asset v = Some (A k)" by blast
      with json [OF k(1)] k(2)
      show "\<exists>k v a. m k = Some v \<and> cache_asset v = Some a \<and> JSON ext a = Inr l" by blast
    qed
    have len: "length (ScanLines (bytes f')) = card (dom m)"
      by (simp add: sc card)
    show ?thesis
      apply (rule exI [of _ files'], rule exI [of _ f'], rule exI [of _ gc'], rule exI [of _ m'])
      by (intro conjI d fl len lines gc dom vals)
  qed
qed

lemma ipv4_strings:
  "ipv4_String ip_10_0_0_1 = ''10.0.0.1''" "ipv4_String ip_10_0_0_2 = ''10.0.0.2''"
  "ipv4_String ip_10_0_0_3 = ''10.0.0.3''"
  by (simp_all add: ip_10_0_0_1_def ip_10_0_0_2_def ip_10_0_0_3_def byte_decimal_def
      digit_char_def)

lemma line_JSON_values:
  "line_JSON old_positive = Inr ''{IP:10.0.0.3,Host:web01,IsAsset:true}''"
  "line_JSON new_positive = Inr ''{IP:10.0.0.1,Host:db01,IsAsset:true}''"
  by (simp_all add: line_JSON_def old_positive_def new_positive_def ipv4_strings)

lemma line_codec_ok:
  "one_line_codec demo_ext old_positive" "one_line_codec demo_ext new_positive"
  by (simp_all add: one_line_codec_def demo_ext_def line_JSON_values line_Unmarshal_def
      LF_def CR_def dropCR_def MaxScanTokenSize_def)

theorem dump_reload_roundtrip_witness:
  "distinct [''10.0.0.3'', ''10.0.0.1'']
   \<and> set [''10.0.0.3'', ''10.0.0.1''] = dom cache2
   \<and> cache2 ''10.0.0.3'' = Some (AssetV old_positive)
   \<and> cache2 ''10.0.0.1'' = Some (AssetP new_positive)
   \<and> IsAsset old_positive \<and> IsAsset new_positive
   \<and> IP_String demo_ext (IP (Data old_positive)) = ''10.0.0.3''
   \<and> IP_String demo_ext (IP (Data new_positive)) = ''10.0.0.1''
   \<and> one_line_codec demo_ext old_positive \<and> one_line_codec demo_ext new_positive
   \<and> persist_assets persist_json = DumpJSONAssets persist_config
   \<and> DumpJSONAssets persist_config \<noteq> []
   \<and> one_file (DumpJSONAssets persist_config) = Some (File empty_file)
   \<and> readable empty_file \<and> writable empty_file \<and> bytes empty_file = []
   \<and> Validate demo_ext persist_config = None
   \<and> (\<exists>files' f' gc' m'.
        dump_branch demo_ext persist_json [''10.0.0.3'', ''10.0.0.1''] cache2 (one_file, no_errs)
          = Some (files', no_errs)
        \<and> files' ''assets.json'' = Some (File f')
        \<and> length (ScanLines (bytes f')) = 2
        \<and> fst (NewGlobalCache demo_ext files' count_clock persist_config) = Some gc'
        \<and> assets gc' = Some m'
        \<and> dom m' = {''10.0.0.3'', ''10.0.0.1''}
        \<and> (\<exists>b. m' ''10.0.0.3'' = Some (AssetV b) \<and> IsAsset b
              \<and> IP_String demo_ext (IP (Data b)) = ''10.0.0.3'')
        \<and> (\<exists>b. m' ''10.0.0.1'' = Some (AssetV b) \<and> IsAsset b
              \<and> IP_String demo_ext (IP (Data b)) = ''10.0.0.1''))"
proof -
  have ks: "distinct [''10.0.0.3'', ''10.0.0.1'']" "set [''10.0.0.3'', ''10.0.0.1''] = dom cache2"
    by (auto simp: cache2_def)
  have ent: "cache2 ''10.0.0.3'' = Some (AssetV old_positive)"
    "cache2 ''10.0.0.1'' = Some (AssetP new_positive)"
    by (simp_all add: cache2_def)
  have isa: "IsAsset old_positive" "IsAsset new_positive"
    by (simp_all add: old_positive_def new_positive_def)
  have keys: "IP_String demo_ext (IP (Data old_positive)) = ''10.0.0.3''"
    "IP_String demo_ext (IP (Data new_positive)) = ''10.0.0.1''"
    by (simp_all add: demo_ext_def old_positive_def new_positive_def ipv4_strings)
  have pos: "\<forall>k v. cache2 k = Some v \<longrightarrow>
        (\<exists>a. cache_asset v = Some a \<and> IsAsset a \<and> IP_String demo_ext (IP (Data a)) = k
           \<and> one_line_codec demo_ext a)"
    using isa keys line_codec_ok by (auto simp: cache2_def split: if_splits)
  have path: "persist_assets persist_json = DumpJSONAssets persist_config"
    "DumpJSONAssets persist_config \<noteq> []"
    by (simp_all add: persist_json_def persist_config_def)
  have fil: "one_file (DumpJSONAssets persist_config) = Some (File empty_file)"
    "readable empty_file" "writable empty_file" "bytes empty_file = []"
    by (simp_all add: one_file_def persist_config_def empty_file_def)
  have stale: "dom cache2 = {} \<longrightarrow> bytes empty_file = []" using fil(4) by simp
  have cfg: "Validate demo_ext persist_config = None"
    by (simp add: demo_ext_def accept_config_def)
  have dm: "dom cache2 = {''10.0.0.3'', ''10.0.0.1''}" using ks(2) by simp
  have p: "DumpJSONAssets persist_config = ''assets.json''" by (simp add: persist_config_def)
  from dump_reload_roundtrip [where ks = "[''10.0.0.3'', ''10.0.0.1'']" and m = cache2
      and ext = demo_ext and p = persist_json and c = persist_config and files = one_file
      and f = empty_file and errs = no_errs and clock = count_clock,
      OF ks pos path fil(1-3) stale cfg]
  obtain files' f' gc' m' where r:
      "dump_branch demo_ext persist_json [''10.0.0.3'', ''10.0.0.1''] cache2 (one_file, no_errs)
          = Some (files', no_errs)"
      "files' (DumpJSONAssets persist_config) = Some (File f')"
      "length (ScanLines (bytes f')) = card (dom cache2)"
      "fst (NewGlobalCache demo_ext files' count_clock persist_config) = Some gc'"
      "assets gc' = Some m'"
      "dom m' = dom cache2"
      "\<forall>k\<in>dom cache2. \<exists>b. m' k = Some (AssetV b) \<and> IsAsset b
            \<and> IP_String demo_ext (IP (Data b)) = k"
    by blast
  have c2: "card (dom cache2) = 2" unfolding dm by simp
  have "\<exists>files' f' gc' m'.
        dump_branch demo_ext persist_json [''10.0.0.3'', ''10.0.0.1''] cache2 (one_file, no_errs)
          = Some (files', no_errs)
        \<and> files' ''assets.json'' = Some (File f')
        \<and> length (ScanLines (bytes f')) = 2
        \<and> fst (NewGlobalCache demo_ext files' count_clock persist_config) = Some gc'
        \<and> assets gc' = Some m'
        \<and> dom m' = {''10.0.0.3'', ''10.0.0.1''}
        \<and> (\<exists>b. m' ''10.0.0.3'' = Some (AssetV b) \<and> IsAsset b
              \<and> IP_String demo_ext (IP (Data b)) = ''10.0.0.3'')
        \<and> (\<exists>b. m' ''10.0.0.1'' = Some (AssetV b) \<and> IsAsset b
              \<and> IP_String demo_ext (IP (Data b)) = ''10.0.0.1'')"
    apply (rule exI [of _ files'], rule exI [of _ f'], rule exI [of _ gc'], rule exI [of _ m'])
    using r unfolding c2 dm p by simp
  then show ?thesis
    using ks ent isa keys line_codec_ok path fil cfg by blast
qed

section \<open>Properties of the enrichment handler\<close>

subsection \<open>Decode\<close>

text \<open>
  C9. \<open>Decode\<close> with a kind that is none of the five it names returns the nil event and the
  nil error, and the handler with its total-events counter incremented and nothing else
  changed; and only such a kind gives a nil event with a nil error.
\<close>

theorem Decode_unhandled_kind:
  "Decode json_Unmarshal h raw (OtherE n) =
     ((None, None), h\<lparr>Counts := (Counts h)\<lparr>Events := Events (Counts h) + 1\<rparr>\<rparr>)
   \<and> (fst (Decode json_Unmarshal h raw kind) = (None, None) \<longleftrightarrow> (\<exists>n. kind = OtherE n))"
  by (cases kind) (auto simp: Decode_def Let_def split: sum.splits)

lemma Decode_Events:
  "Events (Counts (snd (Decode json_Unmarshal h raw kind))) = Events (Counts h) + 1"
  by (cases kind) (auto simp: Decode_def Let_def bump_ParseErrs_def split: sum.splits)

text \<open>
  C5, as the code has it. \<open>Decode\<close> increments the total-events counter whatever the kind,
  the input and the outcome. When \<open>json.Unmarshal\<close> fails, \<open>Decode\<close> increments the
  parse-error counter of the kind (\<open>EventLogE\<close> and \<open>SysmonE\<close> share the Windows counter) and
  returns the nil event and the error of \<open>json.Unmarshal\<close> itself, unchanged and unwrapped.
\<close>

theorem Decode_counts_and_error:
  "Events (Counts (snd (Decode json_Unmarshal h raw kind))) = Events (Counts h) + 1
   \<and> (json_Unmarshal T_Suricata raw = Inl err \<longrightarrow>
        Decode json_Unmarshal h raw SuricataE =
          ((None, Some err),
           h\<lparr>Counts := (Counts h)
               \<lparr>Events := Events (Counts h) + 1,
                ParseErrs := (ParseErrs (Counts h))
                  \<lparr>Suricata := Suricata (ParseErrs (Counts h)) + 1\<rparr>\<rparr>\<rparr>))
   \<and> (json_Unmarshal T_DynamicWinlogbeat raw = Inl err \<longrightarrow>
        Decode json_Unmarshal h raw EventLogE =
          ((None, Some err),
           h\<lparr>Counts := (Counts h)
               \<lparr>Events := Events (Counts h) + 1,
                ParseErrs := (ParseErrs (Counts h))
                  \<lparr>Windows := Windows (ParseErrs (Counts h)) + 1\<rparr>\<rparr>\<rparr>)
        \<and> Decode json_Unmarshal h raw SysmonE = Decode json_Unmarshal h raw EventLogE)
   \<and> (json_Unmarshal T_Syslog raw = Inl err \<longrightarrow>
        Decode json_Unmarshal h raw SyslogE =
          ((None, Some err),
           h\<lparr>Counts := (Counts h)
               \<lparr>Events := Events (Counts h) + 1,
                ParseErrs := (ParseErrs (Counts h))
                  \<lparr>Syslog := Syslog (ParseErrs (Counts h)) + 1\<rparr>\<rparr>\<rparr>))
   \<and> (json_Unmarshal T_Snoopy raw = Inl err \<longrightarrow>
        Decode json_Unmarshal h raw SnoopyE =
          ((None, Some err),
           h\<lparr>Counts := (Counts h)
               \<lparr>Events := Events (Counts h) + 1,
                ParseErrs := (ParseErrs (Counts h))
                  \<lparr>Snoopy := Snoopy (ParseErrs (Counts h)) + 1\<rparr>\<rparr>\<rparr>))"
  by (simp add: Decode_Events) (simp add: Decode_def Let_def decode_into_def bump_ParseErrs_def)

theorem Decode_counts_and_error_witness:
  "nonempty_Unmarshal T_Suricata [] = Inl ''unexpected end of JSON input''
   \<and> nonempty_Unmarshal T_DynamicWinlogbeat [] = Inl ''unexpected end of JSON input''
   \<and> nonempty_Unmarshal T_Syslog [] = Inl ''unexpected end of JSON input''
   \<and> nonempty_Unmarshal T_Snoopy [] = Inl ''unexpected end of JSON input''
   \<and> Events (Counts (snd (Decode nonempty_Unmarshal handler0 [] SuricataE))) = 1
   \<and> Suricata (ParseErrs (Counts (snd (Decode nonempty_Unmarshal handler0 [] SuricataE)))) = 1
   \<and> Windows (ParseErrs (Counts (snd (Decode nonempty_Unmarshal handler0 [] EventLogE)))) = 1
   \<and> Windows (ParseErrs (Counts (snd (Decode nonempty_Unmarshal handler0 [] SysmonE)))) = 1
   \<and> Syslog (ParseErrs (Counts (snd (Decode nonempty_Unmarshal handler0 [] SyslogE)))) = 1
   \<and> Snoopy (ParseErrs (Counts (snd (Decode nonempty_Unmarshal handler0 [] SnoopyE)))) = 1
   \<and> fst (Decode nonempty_Unmarshal handler0 [] SyslogE) =
        (None, Some ''unexpected end of JSON input'')"
proof -
  have f: "nonempty_Unmarshal s [] = Inl ''unexpected end of JSON input''" for s
    by (simp add: nonempty_Unmarshal_def)
  note th = Decode_counts_and_error [of nonempty_Unmarshal handler0 "[]" _
      "''unexpected end of JSON input''"]
  show ?thesis
    using f th [of SuricataE] by (simp add: handler0_def)
qed

text \<open>
  The claim C5 as stated fails: the error \<open>Decode\<close> returns names no kind. On the empty
  input the error for \<open>SuricataE\<close> and the error for \<open>SnoopyE\<close> are the same value, the
  error of the decoder.
\<close>

theorem Decode_error_names_no_kind_counterexample:
  "fst (Decode nonempty_Unmarshal handler0 [] SuricataE) =
     (None, Some ''unexpected end of JSON input'')
   \<and> fst (Decode nonempty_Unmarshal handler0 [] SnoopyE) =
     (None, Some ''unexpected end of JSON input'')
   \<and> nonempty_Unmarshal T_Suricata [] = Inl ''unexpected end of JSON input''"
  by (simp add: Decode_def Let_def decode_into_def nonempty_Unmarshal_def)

subsection \<open>Enrich\<close>

lemma assetLookup_keeps:
  "assets_h (snd (assetLookup str ra h a)) = assets_h h"
  "Counts (snd (assetLookup str ra h a)) = Counts h"
  "persist_h (snd (assetLookup str ra h a)) = persist_h h"
  by (auto simp: assetLookup_def split: option.splits)

lemma assetLookup_fst_cong:
  "assets_h h' = assets_h h \<Longrightarrow> fst (assetLookup str ra h' a) = fst (assetLookup str ra h a)"
  by (auto simp: assetLookup_def split: option.splits)

lemma lookup_ptr_keeps:
  "assets_h (snd (lookup_ptr str ra h p)) = assets_h h"
  "Counts (snd (lookup_ptr str ra h p)) = Counts h"
  "persist_h (snd (lookup_ptr str ra h p)) = persist_h h"
  using assetLookup_keeps [of str ra h]
  by (auto simp: lookup_ptr_def split: option.splits prod.splits) (metis snd_conv)+

lemma lookup_ptr_fst:
  "fst (lookup_ptr str ra h p) = map_option (\<lambda>a. fst (assetLookup str ra h a)) p"
  by (auto simp: lookup_ptr_def split: option.splits prod.splits)

lemma assetLookup_fst_after:
  "fst (assetLookup str ra (snd (assetLookup str ra h b)) a) = fst (assetLookup str ra h a)"
  "fst (assetLookup str ra (snd (lookup_ptr str ra h p)) a) = fst (assetLookup str ra h a)"
  by (rule assetLookup_fst_cong, rule assetLookup_keeps lookup_ptr_keeps)+

lemma Enrich_Some:
  "GetAsset ev = Some fa \<Longrightarrow>
   Enrich str ra h (Some ev) =
     Some ((None,
            ev\<lparr>GetAsset := Some
               (fa\<lparr>Asset := fst (assetLookup str ra h (Asset fa)),
                   Source := fst (lookup_ptr str ra (snd (assetLookup str ra h (Asset fa))) (Source fa)),
                   Destination := fst (lookup_ptr str ra
                      (snd (lookup_ptr str ra (snd (assetLookup str ra h (Asset fa))) (Source fa)))
                      (Destination fa))\<rparr>)\<rparr>),
           snd (lookup_ptr str ra
                  (snd (lookup_ptr str ra (snd (assetLookup str ra h (Asset fa))) (Source fa)))
                  (Destination fa)))"
  by (simp add: Enrich_def Let_def split: prod.splits)

text \<open>
  C6. \<open>Enrich\<close> on an event without an asset sub-object returns the missing-asset-data error
  that carries the event, and leaves the event and the handler as they were. On an event
  with an asset sub-object it returns no error; the event keeps its type and its other
  fields, its \<open>Asset\<close> is the result of the registry lookup, and \<open>Source\<close> and
  \<open>Destination\<close> are looked up when they are present and stay nil when they are not. The
  registry and the counters are unchanged.
\<close>

theorem Enrich_asset_data:
  "(GetAsset ev = None \<longrightarrow>
      Enrich str ra h (Some ev) = Some ((Some (ErrMissingAssetData ev), ev), h))
   \<and> (GetAsset ev = Some fa \<longrightarrow>
      (\<exists>ev' h'. Enrich str ra h (Some ev) = Some ((None, ev'), h')
         \<and> struct ev' = struct ev \<and> decoded ev' = decoded ev
         \<and> GetAsset ev' =
             Some \<lparr>Asset = fst (assetLookup str ra h (Asset fa)),
                   Source = map_option (\<lambda>s. fst (assetLookup str ra h s)) (Source fa),
                   Destination = map_option (\<lambda>d. fst (assetLookup str ra h d)) (Destination fa)\<rparr>
         \<and> assets_h h' = assets_h h \<and> Counts h' = Counts h))"
proof (intro conjI impI)
  assume "GetAsset ev = None"
  then show "Enrich str ra h (Some ev) = Some ((Some (ErrMissingAssetData ev), ev), h)"
    by (simp add: Enrich_def)
next
  assume fa: "GetAsset ev = Some fa"
  show "\<exists>ev' h'. Enrich str ra h (Some ev) = Some ((None, ev'), h')
         \<and> struct ev' = struct ev \<and> decoded ev' = decoded ev
         \<and> GetAsset ev' =
             Some \<lparr>Asset = fst (assetLookup str ra h (Asset fa)),
                   Source = map_option (\<lambda>s. fst (assetLookup str ra h s)) (Source fa),
                   Destination = map_option (\<lambda>d. fst (assetLookup str ra h d)) (Destination fa)\<rparr>
         \<and> assets_h h' = assets_h h \<and> Counts h' = Counts h"
    unfolding Enrich_Some [OF fa]
    by (cases fa)
      (simp add: lookup_ptr_fst lookup_ptr_keeps assetLookup_keeps assetLookup_fst_after
        cong: option.map_cong)
qed

theorem Enrich_asset_data_witness:
  "GetAsset ev_none = None
   \<and> Enrich ipv4_String snd handler1 (Some ev_none) =
        Some ((Some (ErrMissingAssetData ev_none), ev_none), handler1)
   \<and> GetAsset ev_web = Some fa_web
   \<and> (\<exists>ev' h'. Enrich ipv4_String snd handler1 (Some ev_web) = Some ((None, ev'), h')
        \<and> struct ev' = T_Suricata \<and> decoded ev' = ''alert''
        \<and> GetAsset ev' =
             Some \<lparr>Asset = snd rec1, Source = Some stub_web02, Destination = None\<rparr>)"
proof -
  have n: "GetAsset ev_none = None" by (simp add: ev_none_def)
  have s: "GetAsset ev_web = Some fa_web" by (simp add: ev_web_def)
  have l1: "fst (assetLookup ipv4_String snd handler1 (Asset fa_web)) = snd rec1"
    by (simp add: assetLookup_def fa_web_def stub_web01_def handler1_def)
  have l2: "fst (assetLookup ipv4_String snd handler1 stub_web02) = stub_web02"
    by (simp add: assetLookup_def stub_web02_def handler1_def ip_10_0_0_2_def
        byte_decimal_def digit_char_def)
  have f: "Source fa_web = Some stub_web02" "Destination fa_web = None"
    by (simp_all add: fa_web_def)
  have e: "struct ev_web = T_Suricata" "decoded ev_web = ''alert''"
    by (simp_all add: ev_web_def)
  show ?thesis
    using n s
      Enrich_asset_data [where ev = ev_none and str = ipv4_String and ra = snd and h = handler1]
      Enrich_asset_data [where ev = ev_web and fa = fa_web and str = ipv4_String and ra = snd
        and h = handler1]
    by (auto simp: l1 l2 f e)
qed

subsection \<open>The registry lookup and the missing-lookup set\<close>

lemma assetLookup_missing:
  "missingLookupSet (snd (assetLookup str ra h a)) k =
     (if (IP a = None \<or> assets_h h (str (IP a)) = None) \<and> Host a \<noteq> []
         \<and> assets_h h (Host a) = None \<and> k = Host a
      then Some True else missingLookupSet h k)"
  by (auto simp: assetLookup_def split: option.splits)

lemma assetLookup_absorbed:
  assumes "(IP a = None \<or> assets_h h (str (IP a)) = None) \<and> Host a \<noteq> []
           \<and> assets_h h (Host a) = None \<longrightarrow> missingLookupSet h (Host a) = Some True"
  shows "snd (assetLookup str ra h a) = h"
proof -
  have "(missingLookupSet h)(Host a \<mapsto> True) = missingLookupSet h"
    if "missingLookupSet h (Host a) = Some True"
    using that by (auto simp: fun_eq_iff)
  then show ?thesis using assms
    by (auto simp: assetLookup_def split: option.splits)
qed

lemma lookup_ptr_missing:
  "missingLookupSet (snd (lookup_ptr str ra h p)) k =
     (case p of None \<Rightarrow> missingLookupSet h k
      | Some a \<Rightarrow> missingLookupSet (snd (assetLookup str ra h a)) k)"
  by (auto simp: lookup_ptr_def split: option.splits prod.splits)

lemma lookup_ptr_snd:
  "snd (lookup_ptr str ra h p) = (case p of None \<Rightarrow> h | Some a \<Rightarrow> snd (assetLookup str ra h a))"
  by (auto simp: lookup_ptr_def split: option.splits prod.splits)

lemma lookup_ptr_fst_after:
  "fst (lookup_ptr str ra (snd (assetLookup str ra h b)) p) = fst (lookup_ptr str ra h p)"
  "fst (lookup_ptr str ra (snd (lookup_ptr str ra h q)) p) = fst (lookup_ptr str ra h p)"
  by (simp_all add: lookup_ptr_fst assetLookup_fst_after cong: option.map_cong)

lemma Enrich_again:
  assumes "Enrich str ra h (Some ev) = Some (res, h')"
  shows "Enrich str ra h' (Some ev) = Some (res, h')"
proof (cases "GetAsset ev")
  case None
  then show ?thesis using assms by (simp add: Enrich_def)
next
  case (Some fa)
  define h1 where "h1 = snd (assetLookup str ra h (Asset fa))"
  define h2 where "h2 = snd (lookup_ptr str ra h1 (Source fa))"
  define h3 where "h3 = snd (lookup_ptr str ra h2 (Destination fa))"
  have reg: "assets_h h1 = assets_h h" "assets_h h2 = assets_h h" "assets_h h3 = assets_h h"
    by (simp_all add: h1_def h2_def h3_def assetLookup_keeps lookup_ptr_keeps)
  have h': "h' = h3"
    using assms unfolding Enrich_Some [OF Some] by (simp add: h1_def h2_def h3_def)
  have mono: "missingLookupSet h3 k = Some True"
    if "missingLookupSet h1 k = Some True \<or> missingLookupSet h2 k = Some True" for k
    using that
    by (auto simp: h3_def h2_def lookup_ptr_missing assetLookup_missing split: option.splits)
  have a1: "snd (assetLookup str ra h3 (Asset fa)) = h3"
    by (rule assetLookup_absorbed)
      (auto simp: reg intro!: mono simp: h1_def assetLookup_missing)
  have a2: "snd (lookup_ptr str ra h3 (Source fa)) = h3"
  proof (cases "Source fa")
    case None
    then show ?thesis by (simp add: lookup_ptr_snd)
  next
    case (Some s)
    have "snd (assetLookup str ra h3 s) = h3"
      by (rule assetLookup_absorbed)
        (auto simp: reg Some intro!: mono simp: h2_def lookup_ptr_missing assetLookup_missing)
    then show ?thesis using Some by (simp add: lookup_ptr_snd)
  qed
  have a3: "snd (lookup_ptr str ra h3 (Destination fa)) = h3"
  proof (cases "Destination fa")
    case None
    then show ?thesis by (simp add: lookup_ptr_snd)
  next
    case (Some d)
    have "snd (assetLookup str ra h3 d) = h3"
      by (rule assetLookup_absorbed)
        (auto simp: reg Some h3_def lookup_ptr_missing lookup_ptr_keeps assetLookup_missing)
    then show ?thesis using Some by (simp add: lookup_ptr_snd)
  qed
  have f1: "fst (assetLookup str ra h3 a) = fst (assetLookup str ra h a)" for a
    by (rule assetLookup_fst_cong) (rule reg)
  have f2: "fst (lookup_ptr str ra h3 p) = fst (lookup_ptr str ra h p)" for p
    by (simp add: lookup_ptr_fst f1 cong: option.map_cong)
  have res: "res = (None,
            ev\<lparr>GetAsset := Some
               (fa\<lparr>Asset := fst (assetLookup str ra h (Asset fa)),
                   Source := fst (lookup_ptr str ra h (Source fa)),
                   Destination := fst (lookup_ptr str ra h (Destination fa))\<rparr>)\<rparr>)"
    using assms unfolding Enrich_Some [OF Some]
    by (auto simp: lookup_ptr_fst_after)
  show ?thesis
    unfolding Enrich_Some [OF Some] h' a1 a2 a3 res
    by (simp add: f1 f2)
qed

text \<open>
  C7. The registry lookup: a stub whose IP is set and is a registry key gets that record's
  projection; otherwise a stub whose host is not empty and is a registry key gets that
  record's projection; otherwise a stub whose host is not empty comes back unchanged and
  its host is put in the missing-lookup set, whose key set grows by exactly that host;
  otherwise (an IP that is no key, no host) the stub comes back unchanged and nothing is
  recorded. The set is a map keyed by host, so a host is in it once: a second lookup of
  the same stub, and a second \<open>Enrich\<close> of the same event, change nothing more.
\<close>

theorem assetLookup_order_and_misses:
  "(IP a \<noteq> None \<and> assets_h h (str (IP a)) = Some r \<longrightarrow>
      assetLookup str ra h a = (ra r, h))
   \<and> ((IP a = None \<or> assets_h h (str (IP a)) = None)
        \<and> Host a \<noteq> [] \<and> assets_h h (Host a) = Some r \<longrightarrow>
      assetLookup str ra h a = (ra r, h))
   \<and> ((IP a = None \<or> assets_h h (str (IP a)) = None)
        \<and> Host a \<noteq> [] \<and> assets_h h (Host a) = None \<longrightarrow>
      assetLookup str ra h a =
        (a, h\<lparr>missingLookupSet := (missingLookupSet h)(Host a \<mapsto> True)\<rparr>)
      \<and> dom (missingLookupSet (snd (assetLookup str ra h a))) =
          insert (Host a) (dom (missingLookupSet h)))
   \<and> ((IP a = None \<or> assets_h h (str (IP a)) = None) \<and> Host a = [] \<longrightarrow>
      assetLookup str ra h a = (a, h))
   \<and> assetLookup str ra (snd (assetLookup str ra h a)) a = assetLookup str ra h a
   \<and> (Enrich str ra h (Some ev) = Some (res, h') \<longrightarrow>
      Enrich str ra h' (Some ev) = Some (res, h'))"
proof -
  have idem: "assetLookup str ra (snd (assetLookup str ra h a)) a = assetLookup str ra h a"
  proof (rule prod_eqI)
    show "fst (assetLookup str ra (snd (assetLookup str ra h a)) a) = fst (assetLookup str ra h a)"
      by (rule assetLookup_fst_after)
    show "snd (assetLookup str ra (snd (assetLookup str ra h a)) a) = snd (assetLookup str ra h a)"
      by (rule assetLookup_absorbed) (simp add: assetLookup_missing assetLookup_keeps)
  qed
  show ?thesis
    using idem Enrich_again [of str ra h ev res h']
    by (auto simp: assetLookup_def split: option.splits)
qed

theorem assetLookup_order_and_misses_witness:
  "IP stub_ip1 \<noteq> None \<and> assets_h handler1 (ipv4_String (IP stub_ip1)) = Some rec1
   \<and> assetLookup ipv4_String snd handler1 stub_ip1 = (snd rec1, handler1)
   \<and> IP stub_web01 = None \<and> Host stub_web01 \<noteq> [] \<and> assets_h handler1 (Host stub_web01) = Some rec1
   \<and> assetLookup ipv4_String snd handler1 stub_web01 = (snd rec1, handler1)
   \<and> assets_h handler1 (ipv4_String (IP stub_web02)) = None \<and> Host stub_web02 \<noteq> []
   \<and> assets_h handler1 (Host stub_web02) = None
   \<and> assetLookup ipv4_String snd handler1 stub_web02 = (stub_web02, handler1_missing)
   \<and> dom (missingLookupSet handler1_missing) = {''web02''}
   \<and> assetLookup ipv4_String snd handler1_missing stub_web02 = (stub_web02, handler1_missing)
   \<and> assets_h handler1 (ipv4_String (IP stub_ip3)) = None \<and> Host stub_ip3 = []
   \<and> assetLookup ipv4_String snd handler1 stub_ip3 = (stub_ip3, handler1)
   \<and> Enrich ipv4_String snd handler1 (Some ev_web) =
        Some ((None,
               ev_web\<lparr>GetAsset :=
                 Some \<lparr>Asset = snd rec1, Source = Some stub_web02, Destination = None\<rparr>\<rparr>),
              handler1_missing)
   \<and> Enrich ipv4_String snd handler1_missing (Some ev_web) =
        Some ((None,
               ev_web\<lparr>GetAsset :=
                 Some \<lparr>Asset = snd rec1, Source = Some stub_web02, Destination = None\<rparr>\<rparr>),
              handler1_missing)"
proof -
  have s: "ipv4_String ip_10_0_0_1 = ''10.0.0.1''" "ipv4_String ip_10_0_0_2 = ''10.0.0.2''"
    "ipv4_String ip_10_0_0_3 = ''10.0.0.3''"
    by (simp_all add: ip_10_0_0_1_def ip_10_0_0_2_def ip_10_0_0_3_def byte_decimal_def
        digit_char_def)
  have c1: "IP stub_ip1 \<noteq> None \<and> assets_h handler1 (ipv4_String (IP stub_ip1)) = Some rec1"
    by (simp add: stub_ip1_def s handler1_def) (simp add: ip_10_0_0_1_def)
  have c2: "IP stub_web01 = None \<and> Host stub_web01 \<noteq> []
      \<and> assets_h handler1 (Host stub_web01) = Some rec1"
    by (simp add: stub_web01_def handler1_def)
  have c3: "assets_h handler1 (ipv4_String (IP stub_web02)) = None \<and> Host stub_web02 \<noteq> []
      \<and> assets_h handler1 (Host stub_web02) = None"
    by (simp add: stub_web02_def s handler1_def)
  have c4: "assets_h handler1 (ipv4_String (IP stub_ip3)) = None \<and> Host stub_ip3 = []"
    by (simp add: stub_ip3_def s handler1_def)
  have m: "handler1\<lparr>missingLookupSet := (missingLookupSet handler1)(Host stub_web02 \<mapsto> True)\<rparr>
      = handler1_missing"
    by (simp add: handler1_missing_def handler1_def handler0_def stub_web02_def)
  have d: "dom (missingLookupSet handler1) = {}"
    by (simp add: handler1_def handler0_def)
  have hs: "Host stub_web02 = ''web02''" by (simp add: stub_web02_def)
  note t1 = assetLookup_order_and_misses [where a = stub_ip1 and h = handler1
      and str = ipv4_String and r = rec1 and ra = snd]
  note t2 = assetLookup_order_and_misses [where a = stub_web01 and h = handler1
      and str = ipv4_String and r = rec1 and ra = snd]
  note t3 = assetLookup_order_and_misses [where a = stub_web02 and h = handler1
      and str = ipv4_String and r = rec1 and ra = snd]
  note t4 = assetLookup_order_and_misses [where a = stub_ip3 and h = handler1
      and str = ipv4_String and r = rec1 and ra = snd]
  note t5 = assetLookup_order_and_misses [where a = stub_ip3 and h = handler1
      and str = ipv4_String and r = rec1 and ra = snd and ev = ev_web and h' = handler1_missing
      and res = "(None, ev_web\<lparr>GetAsset :=
                 Some \<lparr>Asset = snd rec1, Source = Some stub_web02, Destination = None\<rparr>\<rparr>)"]
  have r1: "assetLookup ipv4_String snd handler1 stub_ip1 = (snd rec1, handler1)"
    using t1 c1 by blast
  have r2: "assetLookup ipv4_String snd handler1 stub_web01 = (snd rec1, handler1)"
    using t2 c2 by blast
  have r3: "assetLookup ipv4_String snd handler1 stub_web02 = (stub_web02, handler1_missing)"
    "dom (missingLookupSet (snd (assetLookup ipv4_String snd handler1 stub_web02)))
       = insert (Host stub_web02) (dom (missingLookupSet handler1))"
    "assetLookup ipv4_String snd (snd (assetLookup ipv4_String snd handler1 stub_web02)) stub_web02
       = assetLookup ipv4_String snd handler1 stub_web02"
    using t3 c3 unfolding m by blast+
  have r4: "assetLookup ipv4_String snd handler1 stub_ip3 = (stub_ip3, handler1)"
    using t4 c4 by blast
  have e: "Enrich ipv4_String snd handler1 (Some ev_web) =
        Some ((None,
               ev_web\<lparr>GetAsset :=
                 Some \<lparr>Asset = snd rec1, Source = Some stub_web02, Destination = None\<rparr>\<rparr>),
              handler1_missing)"
    by (simp add: Enrich_def Let_def lookup_ptr_def ev_web_def fa_web_def r2 r3)
  have r5: "Enrich ipv4_String snd handler1_missing (Some ev_web) =
        Some ((None,
               ev_web\<lparr>GetAsset :=
                 Some \<lparr>Asset = snd rec1, Source = Some stub_web02, Destination = None\<rparr>\<rparr>),
              handler1_missing)"
    using t5 e by simp
  show ?thesis
    using c1 c2 c3 c4 r1 r2 r3 r4 r5 e by (simp add: d hs)
qed

subsection \<open>The registry: AddAsset and NewHandler\<close>

text \<open>
  \<open>AddAsset\<close> stores a key only when the registry does not have it, and counts a pickup
  on every call.
\<close>

lemma add_keys_first_writer:
  "assets_h (add_keys db_Set val keys h) k =
     (case assets_h h k of
        Some old \<Rightarrow> Some old
      | None \<Rightarrow> if k \<in> set keys then Some val else None)"
  by (induction keys arbitrary: h) (auto split: option.splits)

lemma add_keys_AssetPickups:
  "AssetPickups (Counts (add_keys db_Set val keys h)) = AssetPickups (Counts h)"
  by (induction keys arbitrary: h) (auto split: option.splits)

lemma AddAsset_first_writer:
  "assets_h (AddAsset Keys db_Set h val) k =
     (case assets_h h k of
        Some old \<Rightarrow> Some old
      | None \<Rightarrow> if k \<in> set (Keys val) then Some val else None)
   \<and> AssetPickups (Counts (AddAsset Keys db_Set h val)) = AssetPickups (Counts h) + 1"
  by (simp add: AddAsset_def Let_def add_keys_first_writer add_keys_AssetPickups)

lemma AddAsset_twice_example:
  "assets_h (AddAsset fst set_append (AddAsset fst set_append handler0 rec1) rec2) ''web01''
     = Some rec1"
  by (simp add: AddAsset_first_writer) (simp add: handler0_def rec1_def rec2_def)

lemma store_keys_apply:
  "store_keys keys obj m k = (if k \<in> set keys then Some obj else m k)"
  by (induction keys arbitrary: m) auto

lemma find_snoc:
  "List.find P (xs @ [x]) =
     (case List.find P xs of Some y \<Rightarrow> Some y | None \<Rightarrow> if P x then Some x else None)"
  by (induction xs) auto

lemma case_option_same:
  "(case x of Some r \<Rightarrow> Some r | None \<Rightarrow> None) = x"
  by (cases x) simp_all

lemma load_records_all:
  assumes "map gob_Decode ds = map Inr rs"
  shows "load_records Keys gob_Decode ds m =
     Inr (\<lambda>k. case List.find (\<lambda>r. k \<in> set (Keys r)) (rev rs) of
                 Some r \<Rightarrow> Some r | None \<Rightarrow> m k)"
  using assms
proof (induction ds arbitrary: rs m)
  case Nil
  then show ?case by simp
next
  case (Cons d ds)
  then obtain r rs' where rs: "rs = r # rs'" and d: "gob_Decode d = Inr r"
    and rest: "map gob_Decode ds = map Inr rs'"
    by (cases rs) auto
  have "load_records Keys gob_Decode (d # ds) m =
      load_records Keys gob_Decode ds (store_keys (Keys r) r m)"
    using d by simp
  also have "\<dots> = Inr (\<lambda>k. case List.find (\<lambda>r. k \<in> set (Keys r)) (rev rs') of
                 Some r' \<Rightarrow> Some r' | None \<Rightarrow> store_keys (Keys r) r m k)"
    using Cons.IH [OF rest, of "store_keys (Keys r) r m"] by simp
  also have "(\<lambda>k. case List.find (\<lambda>r. k \<in> set (Keys r)) (rev rs') of
                 Some r' \<Rightarrow> Some r' | None \<Rightarrow> store_keys (Keys r) r m k) =
      (\<lambda>k. case List.find (\<lambda>r. k \<in> set (Keys r)) (rev rs) of
                 Some r' \<Rightarrow> Some r' | None \<Rightarrow> m k)"
    by (auto simp: fun_eq_iff rs find_snoc store_keys_apply split: option.splits)
  finally show ?case .
qed

text \<open>
  C2, as the code has it. \<open>NewHandler\<close> on a store whose scanned values all decode stores
  every key of every record without looking whether the key is there: a key maps to the
  last record in scan order that exposes it. The keys of the registry are the union of the
  records' keys, \<open>Assets\<close> is their number, and the missing-lookup set is empty.
\<close>

theorem NewHandler_last_writer_wins:
  assumes "Persist c = Some db" and "map gob_Decode (db_Scan db badgerPrefix) = map Inr rs"
  shows "\<exists>h. NewHandler Keys db_Scan gob_Decode c = Inr h
     \<and> (\<forall>k. assets_h h k = List.find (\<lambda>r. k \<in> set (Keys r)) (rev rs))
     \<and> dom (assets_h h) = (\<Union>r\<in>set rs. set (Keys r))
     \<and> Assets (Counts h) = int (card (\<Union>r\<in>set rs. set (Keys r)))
     \<and> missingLookupSet h = Map.empty"
proof -
  define m' where "m' = (\<lambda>k. List.find (\<lambda>r. k \<in> set (Keys r)) (rev rs))"
  have m': "load_records Keys gob_Decode (db_Scan db badgerPrefix) Map.empty = Inr m'"
    unfolding load_records_all [OF assms(2)] m'_def by (simp add: case_option_same)
  have d: "dom m' = (\<Union>r\<in>set rs. set (Keys r))"
    by (auto simp: dom_def m'_def find_None_iff)
  show ?thesis
    using assms(1) by (simp add: NewHandler_def enrich_Validate_def m' d) (simp add: m'_def)
qed

theorem NewHandler_last_writer_wins_witness:
  "Persist two_records = Some [''r1'', ''r2'']
   \<and> map two_gob (scan_all [''r1'', ''r2''] badgerPrefix) = map Inr [rec1, rec2]
   \<and> (\<exists>h. (NewHandler fst scan_all two_gob two_records
              :: unit enrich_error + (pair_Record, string list) Handler) = Inr h
        \<and> assets_h h ''web01'' = Some rec2
        \<and> assets_h h ''10.0.0.1'' = Some rec1
        \<and> assets_h h ''10.0.0.2'' = Some rec2
        \<and> dom (assets_h h) = {''10.0.0.1'', ''web01'', ''10.0.0.2''}
        \<and> Assets (Counts h) = 3)"
proof -
  have h1: "Persist two_records = Some [''r1'', ''r2'']" by (simp add: two_records_def)
  have h2: "map two_gob (scan_all [''r1'', ''r2''] badgerPrefix) = map Inr [rec1, rec2]"
    by (simp add: scan_all_def two_gob_def)
  have k: "fst rec1 = [''10.0.0.1'', ''web01'']" "fst rec2 = [''10.0.0.2'', ''web01'']"
    by (simp_all add: rec1_def rec2_def)
  have s: "(\<Union>r\<in>set [rec1, rec2]. set (fst r)) = {''10.0.0.1'', ''web01'', ''10.0.0.2''}"
    by (auto simp: k)
  have c: "card {''10.0.0.1'', ''web01'', ''10.0.0.2''} = 3" by simp
  have f: "List.find (\<lambda>r. ''web01'' \<in> set (fst r)) (rev [rec1, rec2]) = Some rec2"
    "List.find (\<lambda>r. ''10.0.0.1'' \<in> set (fst r)) (rev [rec1, rec2]) = Some rec1"
    "List.find (\<lambda>r. ''10.0.0.2'' \<in> set (fst r)) (rev [rec1, rec2]) = Some rec2"
    by (simp_all add: k)
  from NewHandler_last_writer_wins [where c = two_records and db = "[''r1'', ''r2'']"
      and gob_Decode = two_gob and db_Scan = scan_all and rs = "[rec1, rec2]" and Keys = fst,
      OF h1 h2]
  obtain h :: "(pair_Record, string list) Handler"
    where nh: "(NewHandler fst scan_all two_gob two_records
              :: unit enrich_error + (pair_Record, string list) Handler) = Inr h"
      and look: "\<And>k. assets_h h k = List.find (\<lambda>r. k \<in> set (fst r)) (rev [rec1, rec2])"
      and dm: "dom (assets_h h) = (\<Union>r\<in>set [rec1, rec2]. set (fst r))"
      and n: "Assets (Counts h) = int (card (\<Union>r\<in>set [rec1, rec2]. set (fst r)))"
    by blast
  have "assets_h h ''web01'' = Some rec2" "assets_h h ''10.0.0.1'' = Some rec1"
    "assets_h h ''10.0.0.2'' = Some rec2"
    unfolding look f by simp_all
  moreover have "dom (assets_h h) = {''10.0.0.1'', ''web01'', ''10.0.0.2''}"
    using dm unfolding s .
  moreover have "Assets (Counts h) = 3"
    using n unfolding s c by simp
  ultimately show ?thesis
    using h1 h2 nh by blast
qed

text \<open>
  The claim C2 as stated fails: the scan yields \<open>rec1\<close> and then \<open>rec2\<close>, both expose the key
  \<open>web01\<close>, and the registry maps \<open>web01\<close> to \<open>rec2\<close>, the later record.
\<close>

theorem NewHandler_first_writer_counterexample:
  "two_gob ''r1'' = Inr rec1 \<and> two_gob ''r2'' = Inr rec2
   \<and> ''web01'' \<in> set (fst rec1) \<and> ''web01'' \<in> set (fst rec2) \<and> rec1 \<noteq> rec2
   \<and> \<not> isl (NewHandler fst scan_all two_gob two_records
              :: unit enrich_error + (pair_Record, string list) Handler)
   \<and> assets_h (projr (NewHandler fst scan_all two_gob two_records
              :: unit enrich_error + (pair_Record, string list) Handler)) ''web01'' = Some rec2"
  by (simp add: NewHandler_def enrich_Validate_def two_records_def scan_all_def badgerPrefix_def
      two_gob_def)
     (simp add: rec1_def rec2_def)

end
